theory Spec2Isabelle
  imports Main "HOL-Library.AList"
begin

section \<open>Strings\<close>

text \<open>
  A JavaScript string is a sequence of code units. The model uses \<^typ>\<open>string\<close>, one
  \<^typ>\<open>char\<close> per code unit below 256. In that range the white space of
  \<^verbatim>\<open>String.prototype.trim\<close> and of the regular expression class \<^verbatim>\<open>\s\<close> is
  TAB, LF, VT, FF, CR, SPACE and NBSP.
\<close>

abbreviation dq :: string where
  "dq \<equiv> [CHR 0x22]"

abbreviation sq :: string where
  "sq \<equiv> [CHR 0x27]"

definition is_space :: "char \<Rightarrow> bool" where
  "is_space c = (c = CHR 0x09 \<or> c = CHR 0x0A \<or> c = CHR 0x0B \<or> c = CHR 0x0C \<or>
                 c = CHR 0x0D \<or> c = CHR 0x20 \<or> c = CHR 0xA0)"

definition trim :: "string \<Rightarrow> string" where
  "trim str = rev (dropWhile is_space (rev (dropWhile is_space str)))"

definition startsWith :: "string \<Rightarrow> string \<Rightarrow> bool" where
  "startsWith str p = (take (length p) str = p)"

fun join :: "string \<Rightarrow> string list \<Rightarrow> string" where
  "join sep [] = []"
| "join sep [x] = x"
| "join sep (x # y # ys) = x @ sep @ join sep (y # ys)"

section \<open>Settings\<close>

text \<open>
  The two kinds of font entry are \<^verbatim>\<open>{name, link}\<close> and \<^verbatim>\<open>{name, data}\<close>; both
  extend a record with the one field \<open>name\<close>, so that \<open>name\<close> reads either kind.
\<close>

record named =
  name :: string

record google_font = named +
  link :: string

record local_font = named +
  data :: string

record fonts =
  google :: "google_font list"
  local :: "local_font list"

record settings =
  fonts :: fonts
  activeFont :: "string option"
  autoLoad :: bool
  overrideThemeFont :: bool
  notifications :: bool

definition defaultSettings :: settings where
  "defaultSettings =
     \<lparr>fonts = \<lparr>google = [], local = []\<rparr>,
      activeFont = None,
      autoLoad = True,
      overrideThemeFont = False,
      notifications = True\<rparr>"

section \<open>The state of the page\<close>

text \<open>
  \<open>toastr[type](message)\<close> is recorded as a pair in \<open>toasts\<close>; the only types used
  are \<^verbatim>\<open>'success'\<close> and \<^verbatim>\<open>'error'\<close>.
\<close>

datatype toast_type = Success | Error

record element =
  tag :: string
  el_id :: string
  rel :: string
  href :: string
  innerHTML :: string

text \<open>
  The children of \<^verbatim>\<open>document.head\<close>, in order. The style element that
  \<^verbatim>\<open>injectLocalFontStyles\<close> creates is held by reference in the module variable
  \<^verbatim>\<open>fontStyleElement\<close>: its place among the children is the node \<open>CachedFontStyle\<close>
  and its fields are read from the variable. Every other child is a value.
\<close>

datatype node = Elem element | CachedFontStyle

text \<open>
  A chosen file is identified with what \<^verbatim>\<open>FileReader.readAsDataURL\<close> yields for it:
  \<^verbatim>\<open>onload\<close> with a data URL, or \<^verbatim>\<open>onerror\<close>.
\<close>

datatype font_file = Readable string | Unreadable

text \<open>
  \<open>rootStyle\<close> is the list of declarations of \<^verbatim>\<open>document.documentElement.style\<close>,
  property and value. \<open>saves\<close> counts the calls of \<^verbatim>\<open>saveSettingsDebounced\<close> and
  \<open>renders\<close> those of \<^verbatim>\<open>renderFontList\<close>, whose panel is a projection of the
  settings sorted by the host's locale. The last five fields are the input controls of
  the settings panel; \<open>local_font_filename\<close> is the text and the colour of the file
  name display. \<open>reads\<close> holds the readers that have been started and have not yet
  called back, each with the name its callbacks captured and its file.
\<close>

record state =
  settings :: settings
  fontStyleElement :: "element option"
  head :: "node list"
  rootStyle :: "(string \<times> string) list"
  toasts :: "(toast_type \<times> string) list"
  saves :: nat
  renders :: nat
  google_font_name :: string
  google_font_link :: string
  local_font_name :: string
  local_font_file :: "font_file option"
  local_font_filename :: "string \<times> string"
  reads :: "(string \<times> font_file) list"

subsection \<open>Host services\<close>

definition notify :: "string \<Rightarrow> toast_type \<Rightarrow> state \<Rightarrow> state" where
  "notify message type s =
     (if notifications (settings s) then s\<lparr>toasts := toasts s @ [(type, message)]\<rparr> else s)"

definition saveSettingsDebounced :: "state \<Rightarrow> state" where
  "saveSettingsDebounced s = s\<lparr>saves := Suc (saves s)\<rparr>"

definition renderFontList :: "state \<Rightarrow> state" where
  "renderFontList s = s\<lparr>renders := Suc (renders s)\<rparr>"

subsection \<open>The document\<close>

definition node_elem :: "state \<Rightarrow> node \<Rightarrow> element option" where
  "node_elem s n = (case n of Elem e \<Rightarrow> Some e | CachedFontStyle \<Rightarrow> fontStyleElement s)"

definition has_id :: "state \<Rightarrow> string \<Rightarrow> node \<Rightarrow> bool" where
  "has_id s i n = (case node_elem s n of Some e \<Rightarrow> el_id e = i | None \<Rightarrow> False)"

fun index_of :: "('a \<Rightarrow> bool) \<Rightarrow> 'a list \<Rightarrow> nat option" where
  "index_of P [] = None"
| "index_of P (x # xs) = (if P x then Some 0 else map_option Suc (index_of P xs))"

text \<open>
  \<^verbatim>\<open>document.getElementById\<close> returns the first element with the id; the model
  returns its position among the children of head. The module creates its elements in
  head only; the rest of the document is not part of the state, so no element outside
  head is taken to carry one of the ids looked up here.
\<close>

definition getElementById :: "state \<Rightarrow> string \<Rightarrow> nat option" where
  "getElementById s i = index_of (has_id s i) (head s)"

text \<open>The element that \<^verbatim>\<open>getElementById\<close> finds, with its fields.\<close>

definition lookup_id :: "state \<Rightarrow> string \<Rightarrow> element option" where
  "lookup_id s i =
     (case find (has_id s i) (head s) of None \<Rightarrow> None | Some n \<Rightarrow> node_elem s n)"

definition count_id :: "state \<Rightarrow> string \<Rightarrow> nat" where
  "count_id s i = length (filter (has_id s i) (head s))"

definition createElement :: "string \<Rightarrow> element" where
  "createElement t = \<lparr>tag = t, el_id = [], rel = [], href = [], innerHTML = []\<rparr>"

definition appendChild :: "node \<Rightarrow> state \<Rightarrow> state" where
  "appendChild n s = s\<lparr>head := head s @ [n]\<rparr>"

definition remove_child :: "nat \<Rightarrow> state \<Rightarrow> state" where
  "remove_child k s = s\<lparr>head := take k (head s) @ drop (Suc k) (head s)\<rparr>"

definition set_innerHTML :: "nat \<Rightarrow> string \<Rightarrow> state \<Rightarrow> state" where
  "set_innerHTML k txt s =
     (if k < length (head s) then
        (case head s ! k of
           Elem e \<Rightarrow> s\<lparr>head := (head s)[k := Elem (e\<lparr>innerHTML := txt\<rparr>)]\<rparr>
         | CachedFontStyle \<Rightarrow>
             s\<lparr>fontStyleElement :=
                 map_option (\<lambda>e. e\<lparr>innerHTML := txt\<rparr>) (fontStyleElement s)\<rparr>)
      else s)"

definition setProperty :: "string \<Rightarrow> string \<Rightarrow> state \<Rightarrow> state" where
  "setProperty p v s = s\<lparr>rootStyle := AList.update p v (rootStyle s)\<rparr>"

definition removeProperty :: "string \<Rightarrow> state \<Rightarrow> state" where
  "removeProperty p s = s\<lparr>rootStyle := AList.delete p (rootStyle s)\<rparr>"

definition getPropertyValue :: "state \<Rightarrow> string \<Rightarrow> string option" where
  "getPropertyValue s p = map_of (rootStyle s) p"

subsection \<open>Assignments to the settings object\<close>

definition set_activeFont :: "string option \<Rightarrow> state \<Rightarrow> state" where
  "set_activeFont a s = s\<lparr>settings := (settings s)\<lparr>activeFont := a\<rparr>\<rparr>"

definition set_google :: "google_font list \<Rightarrow> state \<Rightarrow> state" where
  "set_google g s = s\<lparr>settings := (settings s)\<lparr>fonts := (fonts (settings s))\<lparr>google := g\<rparr>\<rparr>\<rparr>"

definition set_local :: "local_font list \<Rightarrow> state \<Rightarrow> state" where
  "set_local l s = s\<lparr>settings := (settings s)\<lparr>fonts := (fonts (settings s))\<lparr>local := l\<rparr>\<rparr>\<rparr>"

definition isGoogleFont :: "state \<Rightarrow> string \<Rightarrow> bool" where
  "isGoogleFont s fontName = list_ex (\<lambda>f. name f = fontName) (google (fonts (settings s)))"

definition isLocalFont :: "state \<Rightarrow> string \<Rightarrow> bool" where
  "isLocalFont s fontName = list_ex (\<lambda>f. name f = fontName) (local (fonts (settings s)))"

section \<open>applyFont\<close>

definition customFontFamily :: string where
  "customFontFamily = ''--custom-font-family''"

definition overrideStyleId :: string where
  "overrideStyleId = ''st-custom-fonts-override-style''"

definition selectors :: string where
  "selectors = ''body, select, .font-family-reset, .swipes-counter, textarea, #send_textarea, .text_pole, button, .menu_button''"

definition link_id :: "string \<Rightarrow> string" where
  "link_id nm = ''google-font-'' @ map (\<lambda>c. if is_space c then CHR ''-'' else c) nm"

text \<open>
  Lines 54 to 64: a remote font gets its link element unless an element with the
  link's id is in the document. \<^verbatim>\<open>find\<close> cannot fail after \<^verbatim>\<open>some\<close> succeeded;
  that branch leaves the state as it is.
\<close>

definition ensure_link :: "string \<Rightarrow> state \<Rightarrow> state" where
  "ensure_link fontName s =
     (if isGoogleFont s fontName then
        (case find (\<lambda>f. name f = fontName) (google (fonts (settings s))) of
           None \<Rightarrow> s
         | Some font \<Rightarrow>
             (let linkId = link_id (name font) in
              if getElementById s linkId = None then
                appendChild
                  (Elem ((createElement ''link'')
                     \<lparr>el_id := linkId, rel := ''stylesheet'', href := link font\<rparr>)) s
              else s))
      else s)"

text \<open>Lines 70 to 90: the override style rule, and the update of the settings.\<close>

definition apply_override :: "string \<Rightarrow> state \<Rightarrow> state" where
  "apply_override fontName s =
     (let overrideStyleElement = getElementById s overrideStyleId in
      if \<not> overrideThemeFont (settings s) then
        (case overrideStyleElement of Some k \<Rightarrow> remove_child k s | None \<Rightarrow> s)
      else
        (let (k, s1) =
               (case overrideStyleElement of
                  None \<Rightarrow>
                    (length (head s),
                     appendChild (Elem ((createElement ''style'')\<lparr>el_id := overrideStyleId\<rparr>)) s)
                | Some k \<Rightarrow> (k, s));
             s2 = set_innerHTML k
                    (selectors @ '' { font-family: var(--custom-font-family) !important; }'') s1;
             s3 = set_activeFont (Some fontName) s2;
             s4 = saveSettingsDebounced s3
         in notify (''Applied font: '' @ fontName) Success s4))"

text \<open>
  The argument is \<open>None\<close> for \<^verbatim>\<open>null\<close> and \<^verbatim>\<open>undefined\<close>; these and the empty
  string are the falsy values of line 42.
\<close>

definition applyFont :: "string option \<Rightarrow> state \<Rightarrow> state" where
  "applyFont arg s =
     (case arg of
        None \<Rightarrow> s
      | Some fontName \<Rightarrow>
          if fontName = [] then s
          else if \<not> isGoogleFont s fontName \<and> \<not> isLocalFont s fontName then
            notify (''Font '' @ dq @ fontName @ dq @ '' not found.'') Error s
          else
            apply_override fontName
              (setProperty customFontFamily
                 (dq @ fontName @ dq @ '', '' @ sq @ ''Noto Color Emoji'' @ sq @ '', sans-serif'')
                 (ensure_link fontName s)))"

section \<open>injectLocalFontStyles\<close>

definition localDefsId :: string where
  "localDefsId = ''st-custom-fonts-local-defs''"

text \<open>One element of the array that lines 103 to 108 map the local fonts to.\<close>

definition fontFaceRule :: "local_font \<Rightarrow> string" where
  "fontFaceRule font =
     ''\<newline>        @font-face {\<newline>            font-family: '' @ dq @ name font @ dq @
     '';\<newline>            src: url('' @ data font @ '');\<newline>        }\<newline>    ''"

definition fontFaceRules :: "local_font list \<Rightarrow> string" where
  "fontFaceRules fs = join ''\<newline>'' (map fontFaceRule fs)"

definition injectLocalFontStyles :: "state \<Rightarrow> state" where
  "injectLocalFontStyles s =
     (let s1 =
            (if fontStyleElement s = None then
               appendChild CachedFontStyle
                 (s\<lparr>fontStyleElement := Some ((createElement ''style'')\<lparr>el_id := localDefsId\<rparr>)\<rparr>)
             else s)
      in s1\<lparr>fontStyleElement :=
              map_option (\<lambda>e. e\<lparr>innerHTML := fontFaceRules (local (fonts (settings s1)))\<rparr>)
                (fontStyleElement s1)\<rparr>)"

section \<open>addGoogleFont\<close>

definition nameExists :: "state \<Rightarrow> string \<Rightarrow> bool" where
  "nameExists s nm = (isGoogleFont s nm \<or> isLocalFont s nm)"

text \<open>
  The handler reads the two input controls; \<open>AddRemoteFont\<close> is the user's filling
  them in and clicking the button.
\<close>

definition addGoogleFont :: "state \<Rightarrow> state" where
  "addGoogleFont s =
     (let nm = trim (google_font_name s);
          lnk = trim (google_font_link s)
      in if nm = [] \<or> lnk = [] then
           notify ''Both name and link are required for Google Fonts.'' Error s
         else if nameExists s nm then
           notify (''A font named '' @ dq @ nm @ dq @ '' already exists.'') Error s
         else if \<not> startsWith lnk ''https://fonts.googleapis.com/css'' then
           notify ''Please use a valid Google Fonts API link.'' Error s
         else
           (let s1 = set_google (google (fonts (settings s)) @ [\<lparr>name = nm, link = lnk\<rparr>]) s;
                s2 = saveSettingsDebounced s1;
                s3 = notify (''Added Google Font: '' @ nm) Success s2;
                s4 = renderFontList s3
            in s4\<lparr>google_font_name := [], google_font_link := []\<rparr>))"

definition AddRemoteFont :: "string \<Rightarrow> string \<Rightarrow> state \<Rightarrow> state" where
  "AddRemoteFont nm lnk s = addGoogleFont (s\<lparr>google_font_name := nm, google_font_link := lnk\<rparr>)"

section \<open>handleLocalFontFile\<close>

text \<open>The two callbacks of the reader; \<open>nm\<close> is the name the closure captured.\<close>

definition reader_onload :: "string \<Rightarrow> string \<Rightarrow> state \<Rightarrow> state" where
  "reader_onload nm result s =
     (let s1 = set_local (local (fonts (settings s)) @ [\<lparr>name = nm, data = result\<rparr>]) s;
          s2 = injectLocalFontStyles s1;
          s3 = saveSettingsDebounced s2;
          s4 = notify (''Added local font: '' @ nm) Success s3;
          s5 = renderFontList s4
      in s5\<lparr>local_font_name := [],
            local_font_filename := (''No file selected.'', []),
            local_font_file := None\<rparr>)"

definition reader_onerror :: "state \<Rightarrow> state" where
  "reader_onerror s =
     (notify ''Failed to read font file.'' Error s)
       \<lparr>local_font_filename := (''File read error.'', ''#ff5555'')\<rparr>"

text \<open>
  \<^verbatim>\<open>reader.readAsDataURL(file)\<close> starts the read and returns; the callbacks run in a
  later event.
\<close>

definition readAsDataURL :: "string \<Rightarrow> font_file \<Rightarrow> state \<Rightarrow> state" where
  "readAsDataURL nm file s = s\<lparr>reads := reads s @ [(nm, file)]\<rparr>"

text \<open>
  The handler of the file control's change event: the checks, and the start of the
  read. It does not touch the settings.
\<close>

definition handleLocalFontFile :: "state \<Rightarrow> state" where
  "handleLocalFontFile s =
     (case local_font_file s of
        None \<Rightarrow> s
      | Some file \<Rightarrow>
          (let nm = trim (local_font_name s) in
           if nm = [] then
             notify ''Please provide a name for the local font first.'' Error
               (s\<lparr>local_font_filename := (''Please enter a name first.'', ''#ff5555'')\<rparr>)
           else if nameExists s nm then
             notify (''A font named '' @ dq @ nm @ dq @ '' already exists.'') Error
               (s\<lparr>local_font_filename := (''Name already exists.'', ''#ff5555'')\<rparr>)
           else
             readAsDataURL nm file s))"

text \<open>
  The event in which the \<open>k\<close>-th pending reader calls back: \<^verbatim>\<open>onload\<close> with the data
  URL or \<^verbatim>\<open>onerror\<close>, on the page as it is then. Other handlers may have run since
  the read was started.
\<close>

definition reader_fire :: "nat \<Rightarrow> state \<Rightarrow> state" where
  "reader_fire k s =
     (if k < length (reads s) then
        (let (nm, file) = reads s ! k;
             s1 = s\<lparr>reads := take k (reads s) @ drop (Suc k) (reads s)\<rparr>
         in case file of
              Readable result \<Rightarrow> reader_onload nm result s1
            | Unreadable \<Rightarrow> reader_onerror s1)
      else s)"

text \<open>
  \<open>AddLocalFont\<close> is the user's typing the name and choosing the file; the entry is
  appended by the reader's event that follows.
\<close>

definition AddLocalFont :: "string \<Rightarrow> font_file \<Rightarrow> state \<Rightarrow> state" where
  "AddLocalFont nm file s =
     handleLocalFontFile (s\<lparr>local_font_name := nm, local_font_file := Some file\<rparr>)"

section \<open>removeFont\<close>

definition removeFont :: "string \<Rightarrow> state \<Rightarrow> state" where
  "removeFont fontName s =
     (let wasActive = (activeFont (settings s) = Some fontName);
          initialLength = length (local (fonts (settings s)));
          s1 = set_local (filter (\<lambda>f. name f \<noteq> fontName) (local (fonts (settings s)))) s;
          s2 = (if length (local (fonts (settings s1))) < initialLength
                then injectLocalFontStyles s1 else s1);
          s3 = set_google (filter (\<lambda>f. name f \<noteq> fontName) (google (fonts (settings s2)))) s2;
          s4 = (if wasActive then
                  (let s5 = removeProperty customFontFamily (set_activeFont None s3) in
                   case getElementById s5 overrideStyleId of
                     Some k \<Rightarrow> remove_child k s5
                   | None \<Rightarrow> s5)
                else s3);
          s6 = saveSettingsDebounced s4;
          s7 = notify (''Removed font: '' @ fontName) Success s6
      in renderFontList s7)"

section \<open>Loading the settings at startup\<close>

text \<open>
  The persisted value: an object in which every field of the configuration, and each of
  the two fields of \<open>fonts\<close>, is present or absent. \<open>None\<close> is an absent field;
  \<open>p_activeFont = Some None\<close> is a stored \<^verbatim>\<open>null\<close>.
\<close>

record persisted_fonts =
  p_google :: "google_font list option"
  p_local :: "local_font list option"

record persisted =
  p_fonts :: "persisted_fonts option"
  p_activeFont :: "string option option"
  p_autoLoad :: "bool option"
  p_overrideThemeFont :: "bool option"
  p_notifications :: "bool option"

text \<open>One field of \<^verbatim>\<open>{ ...a, ...b }\<close>: the value of \<open>b\<close> when \<open>b\<close> has the field.\<close>

definition spread :: "'a \<Rightarrow> 'a option \<Rightarrow> 'a" where
  "spread a b = (case b of Some v \<Rightarrow> v | None \<Rightarrow> a)"

text \<open>
  Lines 266 and 267. The first spread takes \<open>fonts\<close> whole from the persisted object
  when it is there, so its two fields may still be absent; the second fills them.
  The argument is \<open>None\<close> when the host has no entry for the extension.
\<close>

definition load_settings :: "persisted option \<Rightarrow> settings" where
  "load_settings stored =
     (let p = spread \<lparr>p_fonts = None, p_activeFont = None, p_autoLoad = None,
                      p_overrideThemeFont = None, p_notifications = None\<rparr> stored;
          fonts1 = spread \<lparr>p_google = Some (google (fonts defaultSettings)),
                           p_local = Some (local (fonts defaultSettings))\<rparr> (p_fonts p)
      in \<lparr>fonts = \<lparr>google = spread (google (fonts defaultSettings)) (p_google fonts1),
                    local = spread (local (fonts defaultSettings)) (p_local fonts1)\<rparr>,
          activeFont = spread (activeFont defaultSettings) (p_activeFont p),
          autoLoad = spread (autoLoad defaultSettings) (p_autoLoad p),
          overrideThemeFont = spread (overrideThemeFont defaultSettings) (p_overrideThemeFont p),
          notifications = spread (notifications defaultSettings) (p_notifications p)\<rparr>)"

text \<open>
  What the host stores for a settings object: after the merge the object has every
  field, so every field is written.
\<close>

definition stored_form :: "settings \<Rightarrow> persisted" where
  "stored_form st =
     \<lparr>p_fonts = Some \<lparr>p_google = Some (google (fonts st)), p_local = Some (local (fonts st))\<rparr>,
      p_activeFont = Some (activeFont st),
      p_autoLoad = Some (autoLoad st),
      p_overrideThemeFont = Some (overrideThemeFont st),
      p_notifications = Some (notifications st)\<rparr>"

text \<open>
  The element in the module variable is the one line 98 created: its id is the one
  line 99 gave it.
\<close>

definition cached_ok :: "state \<Rightarrow> bool" where
  "cached_ok s = (case fontStyleElement s of None \<Rightarrow> True | Some e \<Rightarrow> el_id e = localDefsId)"

section \<open>Reading the embedded style block\<close>








text \<open>
  The state of the block in the document: the cached element has its id, no other child
  of head has that id, and the cached element is a child of head once when the variable
  is set and not at all when it is null.
\<close>

definition block_ok :: "state \<Rightarrow> bool" where
  "block_ok s =
     (cached_ok s \<and>
      list_all (\<lambda>n. case n of Elem e \<Rightarrow> el_id e \<noteq> localDefsId | CachedFontStyle \<Rightarrow> True)
        (head s) \<and>
      count_list (head s) CachedFontStyle = (if fontStyleElement s = None then 0 else 1))"

section \<open>The invariant of the configuration\<close>

definition font_names :: "state \<Rightarrow> string list" where
  "font_names s = map name (google (fonts (settings s))) @ map name (local (fonts (settings s)))"

definition config_inv :: "state \<Rightarrow> bool" where
  "config_inv s =
     (distinct (font_names s) \<and>
      (case activeFont (settings s) of None \<Rightarrow> True | Some a \<Rightarrow> a \<in> set (font_names s)))"

section \<open>Pages used in the examples\<close>

text \<open>The page when the extension starts with nothing stored.\<close>

definition init_state :: state where
  "init_state =
     \<lparr>settings = defaultSettings, fontStyleElement = None, head = [], rootStyle = [],
      toasts = [], saves = 0, renders = 0,
      google_font_name = [], google_font_link = [], local_font_name = [],
      local_font_file = None, local_font_filename = ([], []), reads = []\<rparr>"

text \<open>
  The page with one remote and one local font, the remote one applied with the theme
  override on.
\<close>

definition inter :: google_font where
  "inter = \<lparr>name = ''Inter'', link = ''https://fonts.googleapis.com/css?family=Inter''\<rparr>"

definition my_font :: local_font where
  "my_font = \<lparr>name = ''My Font'', data = ''data:font/ttf;base64,AAEAAAA=''\<rparr>"

definition demo_state :: state where
  "demo_state =
     \<lparr>settings =
        \<lparr>fonts = \<lparr>google = [inter], local = [my_font]\<rparr>,
         activeFont = Some ''Inter'',
         autoLoad = True,
         overrideThemeFont = True,
         notifications = True\<rparr>,
      fontStyleElement =
        Some \<lparr>tag = ''style'', el_id = localDefsId, rel = [], href = [],
              innerHTML = fontFaceRules [my_font]\<rparr>,
      head =
        [CachedFontStyle,
         Elem \<lparr>tag = ''link'', el_id = ''google-font-Inter'', rel = ''stylesheet'',
               href = link inter, innerHTML = []\<rparr>,
         Elem \<lparr>tag = ''style'', el_id = overrideStyleId, rel = [], href = [],
               innerHTML =
                 selectors @ '' { font-family: var(--custom-font-family) !important; }''\<rparr>],
      rootStyle =
        [(customFontFamily,
          dq @ ''Inter'' @ dq @ '', '' @ sq @ ''Noto Color Emoji'' @ sq @ '', sans-serif'')],
      toasts = [], saves = 3, renders = 3,
      google_font_name = [], google_font_link = [], local_font_name = [],
      local_font_file = None, local_font_filename = (''No file selected.'', []),
      reads = []\<rparr>"

text \<open>The page after the remote font Inter has been added to the defaults.\<close>

definition inter_added :: state where
  "inter_added = AddRemoteFont ''Inter'' ''https://fonts.googleapis.com/css?family=Inter'' init_state"


text \<open>
  Three pages of one session: a local font Inter is named and its file chosen; the
  remote font Inter is added while the file is being read; the reader calls back.
\<close>

definition race_started :: state where
  "race_started = AddLocalFont ''Inter'' (Readable ''data:font/ttf;base64,AAEAAAA='') init_state"

definition race_added :: state where
  "race_added =
     AddRemoteFont ''Inter'' ''https://fonts.googleapis.com/css?family=Inter'' race_started"

definition race_done :: state where
  "race_done = reader_fire 0 race_added"

text \<open>
  The page after two remote fonts have been added to the defaults, the names differing
  only in a space and a hyphen.
\<close>

definition two_remote :: state where
  "two_remote =
     AddRemoteFont ''My-Font'' ''https://fonts.googleapis.com/css?family=Lato''
       (AddRemoteFont ''My Font'' ''https://fonts.googleapis.com/css?family=Roboto'' init_state)"



section \<open>Theorems\<close>

subsection \<open>Helper facts\<close>

lemmas host_defs = notify_def saveSettingsDebounced_def renderFontList_def

lemmas dom_defs = appendChild_def remove_child_def set_innerHTML_def setProperty_def
  removeProperty_def

lemmas assign_defs = set_activeFont_def set_google_def set_local_def

lemma nameExists_iff: "nameExists s nm \<longleftrightarrow> nm \<in> set (font_names s)"
  by (auto simp: nameExists_def isGoogleFont_def isLocalFont_def font_names_def list_ex_iff)

lemma settings_injectLocalFontStyles [simp]:
  "settings (injectLocalFontStyles s) = settings s"
  by (simp add: injectLocalFontStyles_def Let_def appendChild_def)

lemma toasts_injectLocalFontStyles [simp]:
  "toasts (injectLocalFontStyles s) = toasts s"
  by (simp add: injectLocalFontStyles_def Let_def appendChild_def)

lemma saves_injectLocalFontStyles [simp]:
  "saves (injectLocalFontStyles s) = saves s"
  by (simp add: injectLocalFontStyles_def Let_def appendChild_def)

lemma renders_injectLocalFontStyles [simp]:
  "renders (injectLocalFontStyles s) = renders s"
  by (simp add: injectLocalFontStyles_def Let_def appendChild_def)

lemma rootStyle_injectLocalFontStyles [simp]:
  "rootStyle (injectLocalFontStyles s) = rootStyle s"
  by (simp add: injectLocalFontStyles_def Let_def appendChild_def)

subsection \<open>Rejected operations\<close>

text \<open>
  C4. For a non-empty name that is in neither sequence, \<^verbatim>\<open>applyFont\<close> calls
  \<^verbatim>\<open>notify\<close> with the type error and does nothing else: the state afterwards is the
  state before with at most one toast more, so no link is inserted, no CSS property is
  set, no override style is written, \<open>activeFont\<close> is unchanged and nothing is saved.
  The toast is shown when the \<open>notifications\<close> setting is on, which is how
  \<^verbatim>\<open>notify\<close> works for every message.
\<close>

theorem applyFont_unknown:
  assumes "fontName \<noteq> []" and "fontName \<notin> set (font_names s)"
  shows "applyFont (Some fontName) s =
           s\<lparr>toasts := toasts s @
                (if notifications (settings s)
                 then [(Error, ''Font '' @ dq @ fontName @ dq @ '' not found.'')] else [])\<rparr>"
  using assms nameExists_iff[of s fontName]
  by (simp add: applyFont_def nameExists_def notify_def)

theorem applyFont_unknown_witness:
  "''Ghost'' \<noteq> [] \<and> ''Ghost'' \<notin> set (font_names demo_state) \<and>
   applyFont (Some ''Ghost'') demo_state =
     demo_state\<lparr>toasts := [(Error, ''Font '' @ dq @ ''Ghost'' @ dq @ '' not found.'')]\<rparr>"
  using applyFont_unknown[of "''Ghost''" demo_state]
  by (simp add: demo_state_def font_names_def inter_def my_font_def)



text \<open>
  In the rejecting branches of the change handler no read is started, so no callback
  follows.
\<close>

lemma add_duplicate_starts_no_read:
  assumes "trim nm \<in> set (font_names s)"
  shows "reads (AddLocalFont nm fl s) = reads s"
proof -
  have "nameExists (s\<lparr>local_font_name := nm, local_font_file := Some fl\<rparr>) (trim nm)"
    using assms by (simp add: nameExists_iff font_names_def)
  then show ?thesis
    by (simp add: AddLocalFont_def handleLocalFontFile_def Let_def notify_def)
qed

text \<open>
  C5, as the code has it. \<^verbatim>\<open>removeFont\<close> has no check that the name exists. For a
  name in neither sequence both sequences stay as they are, the settings are saved, the
  list is rendered again and \<^verbatim>\<open>notify\<close> is called with the type success and the
  message of a removal; no error is reported.
\<close>

theorem removeFont_unknown:
  assumes "fontName \<notin> set (font_names s)"
  shows "fonts (settings (removeFont fontName s)) = fonts (settings s) \<and>
         toasts (removeFont fontName s) = toasts s @
           (if notifications (settings s)
            then [(Success, ''Removed font: '' @ fontName)] else []) \<and>
         saves (removeFont fontName s) = Suc (saves s) \<and>
         renders (removeFont fontName s) = Suc (renders s)"
proof -
  have g: "filter (\<lambda>f. name f \<noteq> fontName) (google (fonts (settings s))) =
             google (fonts (settings s))"
    using assms by (auto simp: font_names_def filter_id_conv)
  have l: "filter (\<lambda>f. name f \<noteq> fontName) (local (fonts (settings s))) =
             local (fonts (settings s))"
    using assms by (auto simp: font_names_def filter_id_conv)
  show ?thesis
    by (simp add: removeFont_def Let_def g l host_defs dom_defs assign_defs
        split: option.splits)
qed

theorem removeFont_unknown_witness:
  "''Ghost'' \<notin> set (font_names demo_state) \<and>
   fonts (settings (removeFont ''Ghost'' demo_state)) = \<lparr>google = [inter], local = [my_font]\<rparr> \<and>
   toasts (removeFont ''Ghost'' demo_state) = [(Success, ''Removed font: Ghost'')] \<and>
   saves (removeFont ''Ghost'' demo_state) = 4 \<and>
   renders (removeFont ''Ghost'' demo_state) = 4"
  using removeFont_unknown[of "''Ghost''" demo_state]
  by (simp add: demo_state_def font_names_def inter_def my_font_def)

text \<open>
  C5, as the claim has it, fails: with nothing stored, removing the unknown name
  \<^verbatim>\<open>Ghost\<close> shows one toast, of type success.
\<close>

theorem removeFont_unknown_reports_success:
  "''Ghost'' \<notin> set (font_names init_state) \<and>
   toasts (removeFont ''Ghost'' init_state) = [(Success, ''Removed font: Ghost'')]"
  by (simp add: removeFont_def Let_def host_defs dom_defs assign_defs init_state_def
      defaultSettings_def font_names_def getElementById_def)

subsection \<open>Loading the settings\<close>

text \<open>
  C7. The merge at startup gives the defaults when nothing is stored; for a stored
  object it gives, field by field, the stored value where the field is present and the
  default where it is absent, and likewise for the two fields of \<open>fonts\<close>; and loading
  what was stored for a settings object gives the settings object back.
\<close>

theorem load_settings_merge:
  "load_settings None = defaultSettings \<and>
   google (fonts (load_settings (Some p))) =
     (case p_fonts p of None \<Rightarrow> []
      | Some f \<Rightarrow> (case p_google f of None \<Rightarrow> [] | Some g \<Rightarrow> g)) \<and>
   local (fonts (load_settings (Some p))) =
     (case p_fonts p of None \<Rightarrow> []
      | Some f \<Rightarrow> (case p_local f of None \<Rightarrow> [] | Some l \<Rightarrow> l)) \<and>
   activeFont (load_settings (Some p)) =
     (case p_activeFont p of None \<Rightarrow> None | Some a \<Rightarrow> a) \<and>
   autoLoad (load_settings (Some p)) =
     (case p_autoLoad p of None \<Rightarrow> True | Some b \<Rightarrow> b) \<and>
   overrideThemeFont (load_settings (Some p)) =
     (case p_overrideThemeFont p of None \<Rightarrow> False | Some b \<Rightarrow> b) \<and>
   notifications (load_settings (Some p)) =
     (case p_notifications p of None \<Rightarrow> True | Some b \<Rightarrow> b) \<and>
   load_settings (Some (stored_form st)) = st"
  by (simp add: load_settings_def spread_def defaultSettings_def stored_form_def Let_def
      split: option.splits)

subsection \<open>The falsy argument\<close>

text \<open>
  C10. \<^verbatim>\<open>applyFont\<close> called with \<^verbatim>\<open>null\<close>, \<^verbatim>\<open>undefined\<close> or the empty name returns
  at once: the whole state (document, settings, save count, toasts) is as it was.
\<close>

theorem applyFont_falsy_noop:
  "applyFont None s = s \<and> applyFont (Some []) s = s"
  by (simp add: applyFont_def)

subsection \<open>The settings after each operation\<close>

lemma settings_ensure_link [simp]: "settings (ensure_link fontName s) = settings s"
  by (simp add: ensure_link_def Let_def appendChild_def split: option.splits)

lemma settings_set_innerHTML [simp]: "settings (set_innerHTML k txt s) = settings s"
  by (simp add: set_innerHTML_def split: node.splits)

lemma settings_apply_override:
  "settings (apply_override fontName s) =
     (if overrideThemeFont (settings s) then (settings s)\<lparr>activeFont := Some fontName\<rparr>
      else settings s)"
  by (simp add: apply_override_def Let_def host_defs assign_defs appendChild_def
      remove_child_def split: option.splits)

lemma settings_applyFont:
  "settings (applyFont arg s) =
     (case arg of
        None \<Rightarrow> settings s
      | Some fontName \<Rightarrow>
          if fontName \<noteq> [] \<and> fontName \<in> set (font_names s) \<and> overrideThemeFont (settings s)
          then (settings s)\<lparr>activeFont := Some fontName\<rparr>
          else settings s)"
  using nameExists_iff[of s]
  by (auto simp: applyFont_def settings_apply_override setProperty_def notify_def nameExists_def
      split: option.splits)

lemma config_inv_cong: "settings s' = settings s \<Longrightarrow> config_inv s' = config_inv s"
  by (simp add: config_inv_def font_names_def cong: option.case_cong)

lemma config_inv_applyFont: "config_inv s \<Longrightarrow> config_inv (applyFont arg s)"
proof -
  assume inv: "config_inv s"
  have names: "font_names (applyFont arg s) = font_names s"
    by (simp add: font_names_def settings_applyFont split: option.splits)
  have "activeFont (settings (applyFont arg s)) = activeFont (settings s) \<or>
        (\<exists>a. activeFont (settings (applyFont arg s)) = Some a \<and> a \<in> set (font_names s))"
    by (simp add: settings_applyFont split: option.splits)
  then show ?thesis
    using inv unfolding config_inv_def names by (auto split: option.splits)
qed

lemma names_inv_add_mid:
  assumes "distinct (g @ l) \<and> (case a of None \<Rightarrow> True | Some x \<Rightarrow> x \<in> set (g @ l))"
    and "n \<notin> set (g @ l)"
  shows "distinct (g @ [n] @ l) \<and> (case a of None \<Rightarrow> True | Some x \<Rightarrow> x \<in> set (g @ [n] @ l))"
  using assms by (cases a) auto

lemma names_inv_add_end:
  assumes "distinct ns \<and> (case a of None \<Rightarrow> True | Some x \<Rightarrow> x \<in> set ns)"
    and "n \<notin> set ns"
  shows "distinct (ns @ [n]) \<and> (case a of None \<Rightarrow> True | Some x \<Rightarrow> x \<in> set (ns @ [n]))"
  using assms by (cases a) auto

lemma names_inv_filter:
  assumes "distinct ns \<and> (case a of None \<Rightarrow> True | Some x \<Rightarrow> x \<in> set ns)"
  shows "distinct (filter (\<lambda>n. n \<noteq> fn) ns) \<and>
         (case (if a = Some fn then None else a) of None \<Rightarrow> True
          | Some x \<Rightarrow> x \<in> set (filter (\<lambda>n. n \<noteq> fn) ns))"
  using assms by (cases a) auto

lemma config_inv_set_google:
  assumes "config_inv s" and "n \<notin> set (font_names s)"
  shows "config_inv (set_google (google (fonts (settings s)) @ [\<lparr>name = n, link = l\<rparr>]) s)"
proof -
  have names: "font_names (set_google (google (fonts (settings s)) @ [\<lparr>name = n, link = l\<rparr>]) s) =
          map name (google (fonts (settings s))) @ [n] @ map name (local (fonts (settings s)))"
    by (simp add: font_names_def set_google_def)
  have act: "activeFont (settings (set_google (google (fonts (settings s)) @ [\<lparr>name = n, link = l\<rparr>]) s)) =
    activeFont (settings s)"
    by (simp add: set_google_def)
  show ?thesis
    unfolding config_inv_def names act
    by (rule names_inv_add_mid) (use assms in \<open>unfold config_inv_def font_names_def\<close>)
qed


lemma config_inv_set_local:
  assumes "config_inv s" and "n \<notin> set (font_names s)"
  shows "config_inv (set_local (local (fonts (settings s)) @ [\<lparr>name = n, data = d\<rparr>]) s)"
proof -
  have names: "font_names (set_local (local (fonts (settings s)) @ [\<lparr>name = n, data = d\<rparr>]) s) =
          font_names s @ [n]"
    by (simp add: font_names_def set_local_def)
  have act: "activeFont (settings (set_local (local (fonts (settings s)) @ [\<lparr>name = n, data = d\<rparr>]) s)) =
    activeFont (settings s)"
    by (simp add: set_local_def)
  show ?thesis
    unfolding config_inv_def names act
    by (rule names_inv_add_end) (use assms in \<open>unfold config_inv_def\<close>)
qed

lemma config_inv_frame [simp]:
  "config_inv (notify m t s) = config_inv s"
  "config_inv (saveSettingsDebounced s) = config_inv s"
  "config_inv (renderFontList s) = config_inv s"
  "config_inv (injectLocalFontStyles s) = config_inv s"
  "config_inv (s\<lparr>google_font_name := a\<rparr>) = config_inv s"
  "config_inv (s\<lparr>google_font_link := a\<rparr>) = config_inv s"
  "config_inv (s\<lparr>local_font_name := a\<rparr>) = config_inv s"
  "config_inv (s\<lparr>local_font_file := b\<rparr>) = config_inv s"
  "config_inv (s\<lparr>local_font_filename := c\<rparr>) = config_inv s"
  "config_inv (s\<lparr>reads := r\<rparr>) = config_inv s"
  "config_inv (readAsDataURL nm fl s) = config_inv s"
  by (rule config_inv_cong, simp add: host_defs readAsDataURL_def)+

lemma config_inv_addGoogleFont:
  assumes "config_inv s"
  shows "config_inv (addGoogleFont s)"
  using assms nameExists_iff[of s "trim (google_font_name s)"]
  by (simp add: addGoogleFont_def Let_def config_inv_set_google)

lemma config_inv_handleLocalFontFile:
  "config_inv (handleLocalFontFile s) = config_inv s"
  by (rule config_inv_cong)
     (simp add: handleLocalFontFile_def Let_def notify_def readAsDataURL_def split: option.splits)

lemma config_inv_reader_onload:
  assumes "config_inv s" and "nm \<notin> set (font_names s)"
  shows "config_inv (reader_onload nm result s)"
  using assms by (simp add: reader_onload_def Let_def config_inv_set_local)

lemma config_inv_reader_onerror: "config_inv (reader_onerror s) = config_inv s"
  by (simp add: reader_onerror_def)

lemma config_inv_reader_fire:
  assumes inv: "config_inv s" and k: "k < length (reads s)"
    and fresh: "fst (reads s ! k) \<notin> set (font_names s)"
  shows "config_inv (reader_fire k s)"
proof -
  obtain nm fl where r: "reads s ! k = (nm, fl)" by (cases "reads s ! k")
  let ?s1 = "s\<lparr>reads := take k (reads s) @ drop (Suc k) (reads s)\<rparr>"
  have i1: "config_inv ?s1" using inv by simp
  have n1: "nm \<notin> set (font_names ?s1)" using fresh r by (simp add: font_names_def)
  show ?thesis
  proof (cases fl)
    case (Readable result)
    then show ?thesis
      using k r config_inv_reader_onload[OF i1 n1, of result] by (simp add: reader_fire_def)
  next
    case Unreadable
    then show ?thesis
      using k r i1 by (simp add: reader_fire_def config_inv_reader_onerror)
  qed
qed

lemma settings_remove_child [simp]: "settings (remove_child k s) = settings s"
  by (simp add: remove_child_def)

lemma settings_removeFont:
  "settings (removeFont fontName s) =
     (settings s)
       \<lparr>fonts := \<lparr>google = filter (\<lambda>f. name f \<noteq> fontName) (google (fonts (settings s))),
                  local = filter (\<lambda>f. name f \<noteq> fontName) (local (fonts (settings s)))\<rparr>,
        activeFont := (if activeFont (settings s) = Some fontName then None
                       else activeFont (settings s))\<rparr>"
  by (simp add: removeFont_def Let_def host_defs assign_defs removeProperty_def
      split: option.splits)

lemma font_names_removeFont:
  "font_names (removeFont fontName s) = filter (\<lambda>n. n \<noteq> fontName) (font_names s)"
  by (simp add: font_names_def settings_removeFont filter_map comp_def)

lemma config_inv_removeFont:
  assumes inv: "config_inv s"
  shows "config_inv (removeFont fontName s)"
proof -
  have act: "activeFont (settings (removeFont fontName s)) =
        (if activeFont (settings s) = Some fontName then None else activeFont (settings s))"
    by (simp add: settings_removeFont)
  show ?thesis
    unfolding config_inv_def font_names_removeFont act
    by (rule names_inv_filter) (use inv in \<open>unfold config_inv_def\<close>)
qed

text \<open>
  What the events of the page keep. The handlers of add, remove and apply keep the
  invariant of the configuration, and so does the change handler of the file control,
  which only starts the read. The event of the reader keeps it when the name it
  captured is still unused at that moment; \<^verbatim>\<open>onload\<close> has no check of its own.
\<close>

lemma config_inv_events:
  assumes "config_inv s"
  shows "config_inv (AddRemoteFont nm lnk s) \<and>
         config_inv (AddLocalFont nm fl s) \<and>
         config_inv (removeFont fontName s) \<and>
         config_inv (applyFont arg s) \<and>
         (k < length (reads s) \<and> fst (reads s ! k) \<notin> set (font_names s) \<longrightarrow>
            config_inv (reader_fire k s))"
  using assms
  by (simp add: AddRemoteFont_def AddLocalFont_def config_inv_addGoogleFont
        config_inv_handleLocalFontFile config_inv_removeFont config_inv_applyFont
        config_inv_reader_fire)

text \<open>
  C2 fails on the code. With nothing stored, the user names a local font Inter and
  chooses its file: the name is free, the read starts. Before the reader calls back the
  user adds the remote font Inter: the name is still free, the entry is appended. Then
  \<^verbatim>\<open>onload\<close> runs and appends the local entry without a check. The invariant holds on
  the first three pages and not on the last, where Inter is in both sequences.
\<close>

theorem local_font_read_race:
  "config_inv init_state \<and> config_inv race_started \<and> config_inv race_added \<and>
   reads race_added = [(''Inter'', Readable ''data:font/ttf;base64,AAEAAAA='')] \<and>
   google (fonts (settings race_done)) = [inter] \<and>
   local (fonts (settings race_done)) =
     [\<lparr>name = ''Inter'', data = ''data:font/ttf;base64,AAEAAAA=''\<rparr>] \<and>
   \<not> config_inv race_done"
proof -
  have s1: "race_started =
      init_state\<lparr>local_font_name := ''Inter'',
                 local_font_file := Some (Readable ''data:font/ttf;base64,AAEAAAA=''),
                 reads := [(''Inter'', Readable ''data:font/ttf;base64,AAEAAAA='')]\<rparr>"
    by (simp add: race_started_def AddLocalFont_def handleLocalFontFile_def Let_def
        init_state_def defaultSettings_def trim_def is_space_def nameExists_def
        isGoogleFont_def isLocalFont_def readAsDataURL_def)
  have g2: "google (fonts (settings race_added)) = [inter]"
    and l2: "local (fonts (settings race_added)) = []"
    and a2: "activeFont (settings race_added) = None"
    and r2: "reads race_added = [(''Inter'', Readable ''data:font/ttf;base64,AAEAAAA='')]"
    by (simp_all add: race_added_def s1 AddRemoteFont_def addGoogleFont_def Let_def
        init_state_def defaultSettings_def trim_def is_space_def nameExists_def
        isGoogleFont_def isLocalFont_def startsWith_def host_defs set_google_def inter_def)
  have g3: "google (fonts (settings race_done)) = [inter]"
    and l3: "local (fonts (settings race_done)) =
               [\<lparr>name = ''Inter'', data = ''data:font/ttf;base64,AAEAAAA=''\<rparr>]"
    by (simp_all add: race_done_def reader_fire_def r2 reader_onload_def Let_def set_local_def
        host_defs g2 l2)
  have "config_inv init_state"
    by (simp add: config_inv_def font_names_def init_state_def defaultSettings_def)
  moreover have "config_inv race_started"
    by (simp add: config_inv_def font_names_def s1 init_state_def defaultSettings_def)
  moreover have "config_inv race_added"
    by (simp add: config_inv_def font_names_def g2 l2 a2 inter_def)
  moreover have "\<not> config_inv race_done"
    by (simp add: config_inv_def font_names_def g3 l3 inter_def)
  ultimately show ?thesis using r2 g3 l3 by simp
qed

subsection \<open>Lists\<close>

lemma index_of_None_iff: "index_of P xs = None \<longleftrightarrow> filter P xs = []"
  by (induction xs) auto

lemma index_of_Some: "index_of P xs = Some k \<Longrightarrow> k < length xs \<and> P (xs ! k)"
  by (induction xs arbitrary: k) (auto split: if_splits)

lemma index_of_append_not: "\<not> P y \<Longrightarrow> index_of P (xs @ [y]) = index_of P xs"
  by (induction xs) auto

lemma find_filter: "find P xs = (case filter P xs of [] \<Rightarrow> None | x # _ \<Rightarrow> Some x)"
  by (induction xs) auto

lemma filter_remove_nth:
  assumes "k < length xs"
  shows "filter Q (take k xs @ drop (Suc k) xs) =
           (if Q (xs ! k) then filter Q (take k xs) @ filter Q (drop (Suc k) xs) else filter Q xs)"
    and "length (filter Q (take k xs @ drop (Suc k) xs)) =
           length (filter Q xs) - (if Q (xs ! k) then 1 else 0)"
proof -
  have "filter Q xs = filter Q (take k xs @ xs ! k # drop (Suc k) xs)"
    using assms by (simp add: id_take_nth_drop[symmetric])
  then have *: "filter Q xs =
      filter Q (take k xs) @ (if Q (xs ! k) then [xs ! k] else []) @ filter Q (drop (Suc k) xs)"
    by simp
  show "filter Q (take k xs @ drop (Suc k) xs) =
           (if Q (xs ! k) then filter Q (take k xs) @ filter Q (drop (Suc k) xs) else filter Q xs)"
    using * by simp
  show "length (filter Q (take k xs @ drop (Suc k) xs)) =
           length (filter Q xs) - (if Q (xs ! k) then 1 else 0)"
    using * by simp
qed

lemma filter_list_update:
  assumes "k < length xs" and "\<not> Q (xs ! k)" and "\<not> Q y"
  shows "filter Q (xs[k := y]) = filter Q xs"
proof -
  have "filter Q xs = filter Q (take k xs @ xs ! k # drop (Suc k) xs)"
    using assms by (simp add: id_take_nth_drop[symmetric])
  moreover have "xs[k := y] = take k xs @ y # drop (Suc k) xs"
    using assms by (simp add: upd_conv_take_nth_drop)
  ultimately show ?thesis using assms by simp
qed

lemma length_filter_list_update:
  assumes "k < length xs" and "Q y = Q (xs ! k)"
  shows "length (filter Q (xs[k := y])) = length (filter Q xs)"
proof -
  have "filter Q xs = filter Q (take k xs @ xs ! k # drop (Suc k) xs)"
    using assms by (simp add: id_take_nth_drop[symmetric])
  moreover have "xs[k := y] = take k xs @ y # drop (Suc k) xs"
    using assms by (simp add: upd_conv_take_nth_drop)
  ultimately show ?thesis using assms by simp
qed

subsection \<open>Looking up by id\<close>

lemma has_id_unique: "has_id s i n \<Longrightarrow> has_id s j n \<Longrightarrow> i = j"
  by (auto simp: has_id_def split: option.splits)

lemma has_id_cong:
  "map_option el_id (fontStyleElement s') = map_option el_id (fontStyleElement s) \<Longrightarrow>
   has_id s' i n = has_id s i n"
  by (cases n; cases "fontStyleElement s"; cases "fontStyleElement s'")
     (auto simp: has_id_def node_elem_def)

lemma getElementById_None_iff: "getElementById s i = None \<longleftrightarrow> count_id s i = 0"
  by (simp add: getElementById_def count_id_def index_of_None_iff)

lemma lookup_id_None: "count_id s i = 0 \<Longrightarrow> lookup_id s i = None"
  by (simp add: lookup_id_def count_id_def find_filter)

lemma ids_differ [simp]:
  "overrideStyleId \<noteq> localDefsId" "localDefsId \<noteq> overrideStyleId"
  "link_id nm \<noteq> overrideStyleId" "overrideStyleId \<noteq> link_id nm"
  by (simp_all add: overrideStyleId_def localDefsId_def link_id_def)

subsection \<open>The document under injectLocalFontStyles\<close>

lemma head_injectLocalFontStyles:
  "head (injectLocalFontStyles s) =
     (if fontStyleElement s = None then head s @ [CachedFontStyle] else head s)"
  by (simp add: injectLocalFontStyles_def Let_def appendChild_def)

lemma fontStyleElement_injectLocalFontStyles:
  "fontStyleElement (injectLocalFontStyles s) =
     Some ((case fontStyleElement s of
              None \<Rightarrow> (createElement ''style'')\<lparr>el_id := localDefsId\<rparr>
            | Some e \<Rightarrow> e)
           \<lparr>innerHTML := fontFaceRules (local (fonts (settings s)))\<rparr>)"
  by (simp add: injectLocalFontStyles_def Let_def appendChild_def split: option.splits)

lemma has_id_injectLocalFontStyles:
  "i \<noteq> localDefsId \<Longrightarrow> has_id (injectLocalFontStyles s) i n = has_id s i n"
  by (cases n; cases "fontStyleElement s")
     (auto simp: has_id_def node_elem_def fontStyleElement_injectLocalFontStyles)

lemma count_id_injectLocalFontStyles:
  assumes "i \<noteq> localDefsId"
  shows "count_id (injectLocalFontStyles s) i = count_id s i"
proof -
  have c: "\<not> has_id s i CachedFontStyle" if "fontStyleElement s = None"
    using that by (simp add: has_id_def node_elem_def)
  have "has_id (injectLocalFontStyles s) i = has_id s i"
    using has_id_injectLocalFontStyles[OF assms] by (rule ext)
  then show ?thesis
    using c by (simp add: count_id_def head_injectLocalFontStyles)
qed

lemma getElementById_injectLocalFontStyles:
  assumes "i \<noteq> localDefsId"
  shows "getElementById (injectLocalFontStyles s) i = getElementById s i"
proof -
  have c: "\<not> has_id s i CachedFontStyle" if "fontStyleElement s = None"
    using that by (simp add: has_id_def node_elem_def)
  have "has_id (injectLocalFontStyles s) i = has_id s i"
    using has_id_injectLocalFontStyles[OF assms] by (rule ext)
  then show ?thesis
    using c by (simp add: getElementById_def head_injectLocalFontStyles index_of_append_not)
qed

lemma find_has_id: "find (has_id s i) xs = Some n \<Longrightarrow> has_id s i n"
  by (auto simp: find_Some_iff)

lemma lookup_id_injectLocalFontStyles:
  assumes ok: "cached_ok s" and i: "i \<noteq> localDefsId"
  shows "lookup_id (injectLocalFontStyles s) i = lookup_id s i"
proof -
  have nc: "\<not> has_id s i CachedFontStyle"
    using ok i by (auto simp: has_id_def node_elem_def cached_ok_def split: option.splits)
  have eq: "has_id (injectLocalFontStyles s) i = has_id s i"
    using has_id_injectLocalFontStyles[OF i] by (rule ext)
  have f: "find (has_id s i) (head (injectLocalFontStyles s)) = find (has_id s i) (head s)"
    using nc by (simp add: head_injectLocalFontStyles find_filter)
  have e: "node_elem (injectLocalFontStyles s) n = node_elem s n" if "has_id s i n" for n
    using that nc by (cases n) (simp_all add: node_elem_def)
  show ?thesis
    unfolding lookup_id_def eq f
    by (auto split: option.splits dest: find_has_id simp: e)
qed

subsection \<open>Operations that leave the document alone\<close>

lemma dom_frame:
  assumes "head s' = head s" and "fontStyleElement s' = fontStyleElement s"
  shows "count_id s' i = count_id s i"
    and "getElementById s' i = getElementById s i"
    and "lookup_id s' i = lookup_id s i"
proof -
  have h: "has_id s' i = has_id s i"
    by (rule ext) (simp add: has_id_def node_elem_def assms split: node.splits)
  have n: "node_elem s' = node_elem s"
    by (rule ext) (simp add: node_elem_def assms split: node.splits)
  show "count_id s' i = count_id s i" by (simp add: count_id_def h assms)
  show "getElementById s' i = getElementById s i" by (simp add: getElementById_def h assms)
  show "lookup_id s' i = lookup_id s i" by (simp add: lookup_id_def h n assms cong: option.case_cong)
qed

lemma dom_frame_count [simp]:
  "count_id (set_local l s) i = count_id s i"
  "count_id (set_google g s) i = count_id s i"
  "count_id (set_activeFont a s) i = count_id s i"
  "count_id (setProperty p v s) i = count_id s i"
  "count_id (removeProperty p s) i = count_id s i"
  "count_id (saveSettingsDebounced s) i = count_id s i"
  "count_id (notify m t s) i = count_id s i"
  "count_id (renderFontList s) i = count_id s i"
  by (rule dom_frame; simp add: host_defs assign_defs setProperty_def removeProperty_def)+

lemma dom_frame_getElementById [simp]:
  "getElementById (set_local l s) i = getElementById s i"
  "getElementById (set_google g s) i = getElementById s i"
  "getElementById (set_activeFont a s) i = getElementById s i"
  "getElementById (setProperty p v s) i = getElementById s i"
  "getElementById (removeProperty p s) i = getElementById s i"
  "getElementById (saveSettingsDebounced s) i = getElementById s i"
  "getElementById (notify m t s) i = getElementById s i"
  "getElementById (renderFontList s) i = getElementById s i"
  by (rule dom_frame; simp add: host_defs assign_defs setProperty_def removeProperty_def)+

lemma dom_frame_lookup [simp]:
  "lookup_id (set_local l s) i = lookup_id s i"
  "lookup_id (set_google g s) i = lookup_id s i"
  "lookup_id (set_activeFont a s) i = lookup_id s i"
  "lookup_id (setProperty p v s) i = lookup_id s i"
  "lookup_id (removeProperty p s) i = lookup_id s i"
  "lookup_id (saveSettingsDebounced s) i = lookup_id s i"
  "lookup_id (notify m t s) i = lookup_id s i"
  "lookup_id (renderFontList s) i = lookup_id s i"
  by (rule dom_frame; simp add: host_defs assign_defs setProperty_def removeProperty_def)+

lemma cached_ok_frame [simp]:
  "cached_ok (set_local l s) = cached_ok s"
  "cached_ok (set_google g s) = cached_ok s"
  by (simp_all add: cached_ok_def assign_defs)

lemma count_id_remove_child:
  assumes "k < length (head s)"
  shows "count_id (remove_child k s) i = count_id s i - (if has_id s i (head s ! k) then 1 else 0)"
proof -
  have h: "has_id (remove_child k s) i = has_id s i"
    by (rule ext) (simp add: has_id_def node_elem_def remove_child_def split: node.splits)
  have "count_id (remove_child k s) i =
          length (filter (has_id s i) (take k (head s) @ drop (Suc k) (head s)))"
    unfolding count_id_def h by (simp add: remove_child_def)
  then show ?thesis
    using filter_remove_nth(2)[OF assms, of "has_id s i"] by (simp add: count_id_def)
qed

lemma getElementById_Some:
  "getElementById s i = Some k \<Longrightarrow> k < length (head s) \<and> has_id s i (head s ! k)"
  by (simp add: getElementById_def index_of_Some)

lemma rootStyle_frame [simp]:
  "rootStyle (set_local l s) = rootStyle s"
  "rootStyle (set_google g s) = rootStyle s"
  "rootStyle (set_activeFont a s) = rootStyle s"
  "rootStyle (saveSettingsDebounced s) = rootStyle s"
  "rootStyle (notify m t s) = rootStyle s"
  "rootStyle (renderFontList s) = rootStyle s"
  "rootStyle (remove_child k s) = rootStyle s"
  by (simp_all add: host_defs assign_defs remove_child_def)

lemma settings_frame [simp]:
  "settings (saveSettingsDebounced s) = settings s"
  "settings (notify m t s) = settings s"
  "settings (renderFontList s) = settings s"
  "settings (removeProperty p s) = settings s"
  "settings (setProperty p v s) = settings s"
  by (simp_all add: host_defs removeProperty_def setProperty_def)

text \<open>
  C6. When the name removed is the active font, \<^verbatim>\<open>removeFont\<close> sets \<open>activeFont\<close>
  to null, removes the CSS custom property from the root element and removes the first
  element with the id of the override style, so that none is left when there was at
  most one. For every other name the active font, the declarations of the root element
  and the element found under the id of the override style are as before.
\<close>

theorem removeFont_active_artifacts:
  assumes ok: "cached_ok s"
  shows "(if activeFont (settings s) = Some fontName then
            activeFont (settings (removeFont fontName s)) = None \<and>
            getPropertyValue (removeFont fontName s) customFontFamily = None \<and>
            count_id (removeFont fontName s) overrideStyleId = count_id s overrideStyleId - 1 \<and>
            (count_id s overrideStyleId \<le> 1 \<longrightarrow>
               lookup_id (removeFont fontName s) overrideStyleId = None)
          else
            activeFont (settings (removeFont fontName s)) = activeFont (settings s) \<and>
            rootStyle (removeFont fontName s) = rootStyle s \<and>
            getElementById (removeFont fontName s) overrideStyleId =
              getElementById s overrideStyleId \<and>
            lookup_id (removeFont fontName s) overrideStyleId = lookup_id s overrideStyleId)"
proof -
  define s1 where "s1 = set_local (filter (\<lambda>f. name f \<noteq> fontName) (local (fonts (settings s)))) s"
  define s2 where "s2 = (if length (local (fonts (settings s1))) < length (local (fonts (settings s)))
                then injectLocalFontStyles s1 else s1)"
  define s3 where "s3 = set_google (filter (\<lambda>f. name f \<noteq> fontName) (google (fonts (settings s2)))) s2"
  define s5 where "s5 = removeProperty customFontFamily (set_activeFont None s3)"
  define s4 where "s4 = (if activeFont (settings s) = Some fontName then
                           (case getElementById s5 overrideStyleId of
                              Some k \<Rightarrow> remove_child k s5 | None \<Rightarrow> s5)
                         else s3)"
  have rf: "removeFont fontName s =
      renderFontList (notify (''Removed font: '' @ fontName) Success (saveSettingsDebounced s4))"
    by (simp only: removeFont_def Let_def s1_def s2_def s3_def s4_def s5_def)
  have ok1: "cached_ok s1" using ok by (simp add: s1_def)
  have c3: "count_id s3 overrideStyleId = count_id s overrideStyleId"
    by (simp add: s3_def s2_def s1_def count_id_injectLocalFontStyles)
  have g3: "getElementById s3 overrideStyleId = getElementById s overrideStyleId"
    by (simp add: s3_def s2_def s1_def getElementById_injectLocalFontStyles)
  have l3: "lookup_id s3 overrideStyleId = lookup_id s overrideStyleId"
    using ok1 by (simp add: s3_def s2_def lookup_id_injectLocalFontStyles) (simp add: s1_def)
  have r3: "rootStyle s3 = rootStyle s"
    by (simp add: s3_def s2_def s1_def)
  have a3: "activeFont (settings s3) = activeFont (settings s)"
    by (simp add: s3_def s2_def s1_def assign_defs)
  show ?thesis
  proof (cases "activeFont (settings s) = Some fontName")
    case False
    then have "s4 = s3" by (simp add: s4_def)
    then show ?thesis using False by (simp add: rf c3 g3 l3 r3 a3)
  next
    case True
    have c5: "count_id s5 overrideStyleId = count_id s overrideStyleId"
      by (simp add: s5_def c3)
    have p5: "map_of (rootStyle s5) customFontFamily = None"
      by (simp add: s5_def removeProperty_def delete_conv')
    have a5: "activeFont (settings s5) = None"
      by (simp add: s5_def set_activeFont_def)
    have c4: "count_id s4 overrideStyleId = count_id s overrideStyleId - 1"
    proof (cases "getElementById s5 overrideStyleId")
      case None
      then have "count_id s5 overrideStyleId = 0" by (simp add: getElementById_None_iff)
      then show ?thesis using None True c5 by (simp add: s4_def)
    next
      case (Some k)
      then show ?thesis
        using True c5 getElementById_Some[OF Some] by (simp add: s4_def count_id_remove_child)
    qed
    have p4: "map_of (rootStyle s4) customFontFamily = None"
      using True p5 by (simp add: s4_def split: option.splits)
    have a4: "activeFont (settings s4) = None"
      using True a5 by (simp add: s4_def split: option.splits)
    have z: "lookup_id s4 overrideStyleId = None" if "count_id s overrideStyleId \<le> 1"
      using that c4 by (intro lookup_id_None) simp
    show ?thesis
      using True by (simp add: rf c4 p4 a4 z getPropertyValue_def)
  qed
qed

lemma cached_ok_demo_state: "cached_ok demo_state"
  by (simp add: cached_ok_def demo_state_def)

lemma count_override_demo_state: "count_id demo_state overrideStyleId = 1"
  by (simp add: count_id_def demo_state_def has_id_def node_elem_def overrideStyleId_def
      localDefsId_def)

theorem removeFont_active_artifacts_witness:
  "cached_ok demo_state \<and>
   activeFont (settings demo_state) = Some ''Inter'' \<and>
   activeFont (settings (removeFont ''Inter'' demo_state)) = None \<and>
   getPropertyValue (removeFont ''Inter'' demo_state) customFontFamily = None \<and>
   count_id (removeFont ''Inter'' demo_state) overrideStyleId = 0 \<and>
   lookup_id (removeFont ''Inter'' demo_state) overrideStyleId = None \<and>
   activeFont (settings (removeFont ''My Font'' demo_state)) = Some ''Inter'' \<and>
   rootStyle (removeFont ''My Font'' demo_state) = rootStyle demo_state \<and>
   lookup_id (removeFont ''My Font'' demo_state) overrideStyleId =
     lookup_id demo_state overrideStyleId"
proof -
  have a: "activeFont (settings demo_state) = Some ''Inter''"
    by (simp add: demo_state_def)
  show ?thesis
    using cached_ok_demo_state count_override_demo_state a
      removeFont_active_artifacts[OF cached_ok_demo_state, of "''Inter''"]
      removeFont_active_artifacts[OF cached_ok_demo_state, of "''My Font''"]
    by simp
qed

subsection \<open>applyFont on a known font\<close>

lemma applyFont_known_override_on:
  assumes "fontName \<noteq> []" and "fontName \<in> set (font_names s)"
    and "overrideThemeFont (settings s)"
  shows "activeFont (settings (applyFont (Some fontName) s)) = Some fontName \<and>
         saves (applyFont (Some fontName) s) = Suc (saves s) \<and>
         toasts (applyFont (Some fontName) s) = toasts s @
           (if notifications (settings s) then [(Success, ''Applied font: '' @ fontName)] else [])"
proof -
  have e: "\<not> (\<not> isGoogleFont s fontName \<and> \<not> isLocalFont s fontName)"
    using assms(2) nameExists_iff[of s fontName] by (simp add: nameExists_def)
  have o: "overrideThemeFont (settings (setProperty p v (ensure_link fontName s)))" for p v
    using assms(3) by simp
  have sv: "saves (setProperty p v (ensure_link fontName s)) = saves s" for p v
    by (simp add: setProperty_def ensure_link_def Let_def appendChild_def split: option.splits)
  have ts: "toasts (setProperty p v (ensure_link fontName s)) = toasts s" for p v
    by (simp add: setProperty_def ensure_link_def Let_def appendChild_def split: option.splits)
  have ov: "activeFont (settings (apply_override fontName t)) = Some fontName \<and>
            saves (apply_override fontName t) = Suc (saves t) \<and>
            toasts (apply_override fontName t) = toasts t @
              (if notifications (settings t) then [(Success, ''Applied font: '' @ fontName)] else [])"
    if "overrideThemeFont (settings t)" for t
    using that
    by (simp add: apply_override_def Let_def host_defs set_activeFont_def appendChild_def
        set_innerHTML_def split: option.splits node.splits)
  show ?thesis
    using assms(1) e ov[OF o] by (auto simp: applyFont_def sv ts)
qed

lemma applyFont_known_override_off:
  assumes "fontName \<noteq> []" and "fontName \<in> set (font_names s)"
    and "\<not> overrideThemeFont (settings s)"
  shows "settings (applyFont (Some fontName) s) = settings s \<and>
         saves (applyFont (Some fontName) s) = saves s \<and>
         toasts (applyFont (Some fontName) s) = toasts s"
proof -
  have e: "\<not> (\<not> isGoogleFont s fontName \<and> \<not> isLocalFont s fontName)"
    using assms(2) nameExists_iff[of s fontName] by (simp add: nameExists_def)
  have sv: "saves (setProperty p v (ensure_link fontName s)) = saves s" for p v
    by (simp add: setProperty_def ensure_link_def Let_def appendChild_def split: option.splits)
  have ts: "toasts (setProperty p v (ensure_link fontName s)) = toasts s" for p v
    by (simp add: setProperty_def ensure_link_def Let_def appendChild_def split: option.splits)
  have ov: "settings (apply_override fontName t) = settings t \<and>
            saves (apply_override fontName t) = saves t \<and>
            toasts (apply_override fontName t) = toasts t"
    if "\<not> overrideThemeFont (settings t)" for t
    using that
    by (simp add: apply_override_def Let_def remove_child_def split: option.splits)
  have o: "\<not> overrideThemeFont (settings (setProperty p v (ensure_link fontName s)))" for p v
    using assms(3) by simp
  show ?thesis
    using assms(1) e ov[OF o] by (auto simp: applyFont_def sv ts)
qed

lemma inter_added_eq:
  "inter_added =
     init_state\<lparr>settings := defaultSettings\<lparr>fonts := \<lparr>google = [inter], local = []\<rparr>\<rparr>,
                toasts := [(Success, ''Added Google Font: Inter'')],
                saves := 1, renders := 1\<rparr>"
  by (simp add: inter_added_def AddRemoteFont_def addGoogleFont_def Let_def init_state_def
      defaultSettings_def trim_def is_space_def nameExists_def isGoogleFont_def isLocalFont_def
      startsWith_def host_defs set_google_def inter_def)

text \<open>
  C1 fails on the code. With the default settings the theme override is off. After
  the remote font Inter has been added, applying it sets the CSS custom property and
  returns at line 75: \<open>activeFont\<close> is still null, nothing is saved and no toast is
  shown.
\<close>

theorem applyFont_override_off_skips_update:
  "''Inter'' \<in> set (font_names inter_added) \<and>
   \<not> overrideThemeFont (settings inter_added) \<and>
   getPropertyValue (applyFont (Some ''Inter'') inter_added) customFontFamily =
     Some (dq @ ''Inter'' @ dq @ '', '' @ sq @ ''Noto Color Emoji'' @ sq @ '', sans-serif'') \<and>
   activeFont (settings (applyFont (Some ''Inter'') inter_added)) = None \<and>
   saves (applyFont (Some ''Inter'') inter_added) = saves inter_added \<and>
   toasts (applyFont (Some ''Inter'') inter_added) = toasts inter_added"
  by (simp add: inter_added_eq init_state_def defaultSettings_def font_names_def inter_def
      applyFont_def isGoogleFont_def isLocalFont_def ensure_link_def apply_override_def Let_def
      getElementById_def appendChild_def setProperty_def getPropertyValue_def has_id_def
      node_elem_def createElement_def link_id_def is_space_def overrideStyleId_def
      customFontFamily_def)

subsection \<open>The embedded style block\<close>

lemma fontStyleElement_frame [simp]:
  "fontStyleElement (set_local l s) = fontStyleElement s"
  "fontStyleElement (set_google g s) = fontStyleElement s"
  "fontStyleElement (set_activeFont a s) = fontStyleElement s"
  "fontStyleElement (removeProperty p s) = fontStyleElement s"
  "fontStyleElement (remove_child k s) = fontStyleElement s"
  "fontStyleElement (saveSettingsDebounced s) = fontStyleElement s"
  "fontStyleElement (notify m t s) = fontStyleElement s"
  "fontStyleElement (renderFontList s) = fontStyleElement s"
  by (simp_all add: host_defs assign_defs removeProperty_def remove_child_def)




subsection \<open>The link of a remote font\<close>

lemma has_id_set_innerHTML: "has_id (set_innerHTML k txt s) i n = has_id s i n"
proof (rule has_id_cong)
  show "map_option el_id (fontStyleElement (set_innerHTML k txt s)) =
        map_option el_id (fontStyleElement s)"
    by (cases "fontStyleElement s") (simp_all add: set_innerHTML_def split: node.splits)
qed

lemma head_set_innerHTML:
  "head (set_innerHTML k txt s) =
     (if k < length (head s) then
        (case head s ! k of
           Elem e \<Rightarrow> (head s)[k := Elem (e\<lparr>innerHTML := txt\<rparr>)]
         | CachedFontStyle \<Rightarrow> head s)
      else head s)"
  by (simp add: set_innerHTML_def split: node.splits)

lemma count_id_set_innerHTML: "count_id (set_innerHTML k txt s) i = count_id s i"
proof -
  have h: "has_id (set_innerHTML k txt s) i = has_id s i"
    using has_id_set_innerHTML by (rule ext)
  have e: "has_id s i (Elem (e\<lparr>innerHTML := txt\<rparr>)) = has_id s i (Elem e)" for e
    by (simp add: has_id_def node_elem_def)
  show ?thesis
    unfolding count_id_def h head_set_innerHTML
    by (auto split: node.splits intro!: length_filter_list_update simp: e)
qed

lemma count_id_appendChild:
  "count_id (appendChild n s) i = count_id s i + (if has_id s i n then 1 else 0)"
proof -
  have h: "has_id (appendChild n s) i = has_id s i"
    by (rule ext) (simp add: has_id_def node_elem_def appendChild_def split: node.splits)
  show ?thesis
    unfolding count_id_def h by (simp add: appendChild_def)
qed

lemma has_id_Elem: "has_id s i (Elem e) = (el_id e = i)"
  by (simp add: has_id_def node_elem_def)

lemma find_google:
  assumes "isGoogleFont s fontName"
  shows "\<exists>font. find (\<lambda>f. name f = fontName) (google (fonts (settings s))) = Some font \<and>
                name font = fontName"
proof (cases "find (\<lambda>f. name f = fontName) (google (fonts (settings s)))")
  case None
  then show ?thesis using assms by (auto simp: isGoogleFont_def list_ex_iff find_None_iff)
next
  case (Some font)
  then show ?thesis by (auto simp: find_Some_iff)
qed

lemma count_id_ensure_link:
  assumes "isGoogleFont s fontName"
  shows "count_id (ensure_link fontName s) (link_id fontName) =
           max 1 (count_id s (link_id fontName))"
proof -
  obtain font where f: "find (\<lambda>f. name f = fontName) (google (fonts (settings s))) = Some font"
    and n: "name font = fontName"
    using find_google[OF assms] by blast
  show ?thesis
  proof (cases "getElementById s (link_id fontName)")
    case None
    then have "count_id s (link_id fontName) = 0" by (simp add: getElementById_None_iff)
    then show ?thesis
      using assms f n None
      by (simp add: ensure_link_def Let_def count_id_appendChild has_id_Elem)
  next
    case (Some k)
    then have "count_id s (link_id fontName) \<noteq> 0"
      using getElementById_None_iff[of s "link_id fontName"] by simp
    then show ?thesis
      using assms f n Some by (simp add: ensure_link_def Let_def)
  qed
qed

lemma count_id_apply_override:
  assumes "i \<noteq> overrideStyleId"
  shows "count_id (apply_override fontName s) i = count_id s i"
proof (cases "getElementById s overrideStyleId")
  case None
  then show ?thesis
    using assms
    by (simp add: apply_override_def Let_def count_id_set_innerHTML count_id_appendChild
        has_id_Elem createElement_def)
next
  case (Some k)
  have "\<not> has_id s i (head s ! k)"
    using getElementById_Some[OF Some] assms has_id_unique by blast
  then show ?thesis
    using Some getElementById_Some[OF Some]
    by (simp add: apply_override_def Let_def count_id_set_innerHTML count_id_remove_child)
qed

lemma count_id_applyFont:
  assumes "fontName \<noteq> []" and "isGoogleFont s fontName"
  shows "count_id (applyFont (Some fontName) s) (link_id fontName) =
           max 1 (count_id s (link_id fontName))"
  using assms
  by (simp add: applyFont_def count_id_apply_override count_id_ensure_link)

lemma isGoogleFont_applyFont: "isGoogleFont (applyFont arg s) fontName = isGoogleFont s fontName"
  by (simp add: isGoogleFont_def settings_applyFont split: option.splits)

lemma count_id_applyFont_repeated:
  assumes "fontName \<noteq> []" and "isGoogleFont s fontName"
  shows "isGoogleFont ((applyFont (Some fontName) ^^ n) s) fontName \<and>
         count_id ((applyFont (Some fontName) ^^ Suc n) s) (link_id fontName) =
           max 1 (count_id s (link_id fontName))"
proof (induction n)
  case 0
  show ?case using assms by (simp add: count_id_applyFont)
next
  case (Suc n)
  let ?t = "(applyFont (Some fontName) ^^ Suc n) s"
  have g: "isGoogleFont ?t fontName"
    using Suc by (simp add: isGoogleFont_applyFont)
  have "count_id (applyFont (Some fontName) ?t) (link_id fontName) =
          max 1 (count_id ?t (link_id fontName))"
    using assms(1) g by (rule count_id_applyFont)
  then show ?case using Suc g by simp
qed

lemma lookup_id_eqI:
  assumes h: "has_id s' i = has_id s i"
    and f: "filter (has_id s i) (head s') = filter (has_id s i) (head s)"
    and n: "\<And>n. has_id s i n \<Longrightarrow> node_elem s' n = node_elem s n"
  shows "lookup_id s' i = lookup_id s i"
proof (cases "filter (has_id s i) (head s)")
  case Nil
  then show ?thesis unfolding lookup_id_def find_filter h f by simp
next
  case (Cons x xs)
  then have "x \<in> set (filter (has_id s i) (head s))" by simp
  then have "has_id s i x" by simp
  then show ?thesis unfolding lookup_id_def find_filter h f using Cons by (simp add: n)
qed

lemma has_id_appendChild: "has_id (appendChild n s) i = has_id s i"
  by (rule ext) (simp add: has_id_def node_elem_def appendChild_def split: node.splits)

lemma has_id_remove_child: "has_id (remove_child k s) i = has_id s i"
  by (rule ext) (simp add: has_id_def node_elem_def remove_child_def split: node.splits)

lemma lookup_id_appendChild_new:
  assumes "getElementById s i = None" and "el_id e = i"
  shows "lookup_id (appendChild (Elem e) s) i = Some e"
proof -
  have "filter (has_id s i) (head s) = []"
    using assms(1) by (simp add: getElementById_def index_of_None_iff)
  then have "filter (has_id s i) (head (appendChild (Elem e) s)) = [Elem e]"
    using assms(2) by (simp add: appendChild_def has_id_Elem)
  then show ?thesis
    unfolding lookup_id_def find_filter has_id_appendChild by (simp add: node_elem_def)
qed

lemma lookup_id_appendChild_other:
  assumes "\<not> has_id s i n"
  shows "lookup_id (appendChild n s) i = lookup_id s i"
proof (rule lookup_id_eqI[OF has_id_appendChild])
  show "filter (has_id s i) (head (appendChild n s)) = filter (has_id s i) (head s)"
    using assms by (simp add: appendChild_def)
  show "node_elem (appendChild n s) m = node_elem s m" for m
    by (simp add: node_elem_def appendChild_def split: node.splits)
qed

lemma lookup_id_remove_child_other:
  assumes "k < length (head s)" and "\<not> has_id s i (head s ! k)"
  shows "lookup_id (remove_child k s) i = lookup_id s i"
proof (rule lookup_id_eqI[OF has_id_remove_child])
  show "filter (has_id s i) (head (remove_child k s)) = filter (has_id s i) (head s)"
    using filter_remove_nth(1)[OF assms(1), of "has_id s i"] assms(2)
    by (simp add: remove_child_def)
  show "node_elem (remove_child k s) m = node_elem s m" for m
    by (simp add: node_elem_def remove_child_def split: node.splits)
qed

lemma lookup_id_set_innerHTML_other:
  assumes "k < length (head s)" and "\<not> has_id s i (head s ! k)"
  shows "lookup_id (set_innerHTML k txt s) i = lookup_id s i"
proof (rule lookup_id_eqI)
  show "has_id (set_innerHTML k txt s) i = has_id s i"
    using has_id_set_innerHTML by (rule ext)
  show "filter (has_id s i) (head (set_innerHTML k txt s)) = filter (has_id s i) (head s)"
  proof (cases "head s ! k")
    case (Elem e)
    then have "\<not> has_id s i (Elem (e\<lparr>innerHTML := txt\<rparr>))"
      using assms(2) by (simp add: has_id_Elem)
    then show ?thesis
      using assms Elem by (simp add: head_set_innerHTML filter_list_update)
  next
    case CachedFontStyle
    then show ?thesis by (simp add: head_set_innerHTML)
  qed
  show "node_elem (set_innerHTML k txt s) m = node_elem s m" if m: "has_id s i m" for m
  proof (cases "head s ! k")
    case (Elem e)
    then show ?thesis
      using assms(1) by (simp add: node_elem_def set_innerHTML_def split: node.splits)
  next
    case CachedFontStyle
    then have "m \<noteq> CachedFontStyle" using assms(2) m by auto
    then show ?thesis by (cases m) (simp_all add: node_elem_def)
  qed
qed

lemma lookup_id_apply_override:
  assumes "i \<noteq> overrideStyleId"
  shows "lookup_id (apply_override fontName s) i = lookup_id s i"
proof (cases "getElementById s overrideStyleId")
  case None
  let ?e = "(createElement ''style'')\<lparr>el_id := overrideStyleId\<rparr>"
  let ?s1 = "appendChild (Elem ?e) s"
  have a: "\<not> has_id s i (Elem ?e)"
    using assms by (simp add: has_id_Elem createElement_def)
  have k: "length (head s) < length (head ?s1)" "head ?s1 ! length (head s) = Elem ?e"
    by (simp_all add: appendChild_def)
  have a1: "\<not> has_id ?s1 i (head ?s1 ! length (head s))"
    unfolding k(2) has_id_Elem using assms by (simp add: createElement_def)
  have "lookup_id (set_innerHTML (length (head s)) c ?s1) i = lookup_id s i" for c
    using lookup_id_set_innerHTML_other[OF k(1) a1] lookup_id_appendChild_other[OF a] by simp
  then show ?thesis
    using None a
    by (simp add: apply_override_def Let_def lookup_id_appendChild_other)
next
  case (Some k)
  have k: "k < length (head s)" "\<not> has_id s i (head s ! k)"
    using getElementById_Some[OF Some] assms has_id_unique by blast+
  show ?thesis
    using Some k
    by (simp add: apply_override_def Let_def lookup_id_set_innerHTML_other
        lookup_id_remove_child_other)
qed

lemma lookup_id_ensure_link_new:
  assumes "isGoogleFont s fontName" and "getElementById s (link_id fontName) = None"
  shows "\<exists>font. find (\<lambda>f. name f = fontName) (google (fonts (settings s))) = Some font \<and>
           lookup_id (ensure_link fontName s) (link_id fontName) =
             Some \<lparr>tag = ''link'', el_id = link_id fontName, rel = ''stylesheet'',
                   href = link font, innerHTML = []\<rparr>"
proof -
  obtain font where f: "find (\<lambda>f. name f = fontName) (google (fonts (settings s))) = Some font"
    and n: "name font = fontName"
    using find_google[OF assms(1)] by blast
  have "lookup_id (ensure_link fontName s) (link_id fontName) =
          Some ((createElement ''link'')
            \<lparr>el_id := link_id fontName, rel := ''stylesheet'', href := link font\<rparr>)"
    using assms f n by (simp add: ensure_link_def Let_def lookup_id_appendChild_new)
  then show ?thesis using f by (simp add: createElement_def)
qed

text \<open>
  What the code does keep. Applying a known remote font any number of times, at least
  once, leaves as many elements with the id of its link as there were, and one when
  there was none; in that case the element found under the id after the first call is
  a stylesheet link to the font's URL.
\<close>

lemma applyFont_link_count:
  assumes "fontName \<noteq> []" and "isGoogleFont s fontName"
  shows "count_id ((applyFont (Some fontName) ^^ Suc n) s) (link_id fontName) =
           max 1 (count_id s (link_id fontName)) \<and>
         (count_id s (link_id fontName) = 0 \<longrightarrow>
            (\<exists>font. find (\<lambda>f. name f = fontName) (google (fonts (settings s))) = Some font \<and>
               lookup_id (applyFont (Some fontName) s) (link_id fontName) =
                 Some \<lparr>tag = ''link'', el_id = link_id fontName, rel = ''stylesheet'',
                       href = link font, innerHTML = []\<rparr>))"
proof -
  have "lookup_id (applyFont (Some fontName) s) (link_id fontName) =
          lookup_id (ensure_link fontName s) (link_id fontName)"
    using assms by (simp add: applyFont_def lookup_id_apply_override)
  then show ?thesis
    using count_id_applyFont_repeated[OF assms, of n] lookup_id_ensure_link_new[OF assms(2)]
    by (simp add: getElementById_None_iff)
qed

text \<open>
  C8 fails on the code. The id of the link is the name with every white space
  character replaced by a hyphen, so the remote fonts \<^verbatim>\<open>My Font\<close> and \<^verbatim>\<open>My-Font\<close> have
  the same id. With both added and the first applied, applying the second finds the
  first one's link under its id and inserts nothing: the CSS property names
  \<^verbatim>\<open>My-Font\<close>, and head holds one link, to the stylesheet of \<^verbatim>\<open>My Font\<close>, and none to
  the stylesheet of \<^verbatim>\<open>My-Font\<close>.
\<close>

theorem applyFont_link_id_collision:
  "isGoogleFont two_remote ''My Font'' \<and> isGoogleFont two_remote ''My-Font'' \<and>
   find (\<lambda>f. name f = ''My-Font'') (google (fonts (settings two_remote))) =
     Some \<lparr>name = ''My-Font'', link = ''https://fonts.googleapis.com/css?family=Lato''\<rparr> \<and>
   link_id ''My Font'' = ''google-font-My-Font'' \<and>
   link_id ''My-Font'' = ''google-font-My-Font'' \<and>
   head (applyFont (Some ''My-Font'') (applyFont (Some ''My Font'') two_remote)) =
     [Elem \<lparr>tag = ''link'', el_id = ''google-font-My-Font'', rel = ''stylesheet'',
            href = ''https://fonts.googleapis.com/css?family=Roboto'', innerHTML = []\<rparr>] \<and>
   getPropertyValue (applyFont (Some ''My-Font'') (applyFont (Some ''My Font'') two_remote))
       customFontFamily =
     Some (dq @ ''My-Font'' @ dq @ '', '' @ sq @ ''Noto Color Emoji'' @ sq @ '', sans-serif'')"
proof -
  have s: "settings two_remote =
      defaultSettings\<lparr>fonts :=
        \<lparr>google = [\<lparr>name = ''My Font'', link = ''https://fonts.googleapis.com/css?family=Roboto''\<rparr>,
                   \<lparr>name = ''My-Font'', link = ''https://fonts.googleapis.com/css?family=Lato''\<rparr>],
         local = []\<rparr>\<rparr>"
    and h: "head two_remote = []" and r: "rootStyle two_remote = []"
    and f: "fontStyleElement two_remote = None"
    by (simp_all add: two_remote_def AddRemoteFont_def addGoogleFont_def Let_def init_state_def
        defaultSettings_def trim_def is_space_def nameExists_def isGoogleFont_def
        isLocalFont_def startsWith_def host_defs set_google_def)
  have l: "link_id ''My Font'' = ''google-font-My-Font''"
          "link_id ''My-Font'' = ''google-font-My-Font''"
    by (simp_all add: link_id_def is_space_def)
  have g: "isGoogleFont two_remote ''My Font''" "isGoogleFont two_remote ''My-Font''"
    by (simp_all add: isGoogleFont_def s defaultSettings_def)
  let ?a = "applyFont (Some ''My Font'') two_remote"
  have a: "?a = two_remote
      \<lparr>head := [Elem \<lparr>tag = ''link'', el_id = ''google-font-My-Font'', rel = ''stylesheet'',
                      href = ''https://fonts.googleapis.com/css?family=Roboto'',
                      innerHTML = []\<rparr>],
       rootStyle := [(customFontFamily,
          dq @ ''My Font'' @ dq @ '', '' @ sq @ ''Noto Color Emoji'' @ sq @ '', sans-serif'')]\<rparr>"
    using g
    by (simp add: applyFont_def ensure_link_def apply_override_def Let_def s h r f l
        defaultSettings_def getElementById_def appendChild_def setProperty_def
        createElement_def has_id_def node_elem_def overrideStyleId_def)
  have "head (applyFont (Some ''My-Font'') ?a) =
          [Elem \<lparr>tag = ''link'', el_id = ''google-font-My-Font'', rel = ''stylesheet'',
                 href = ''https://fonts.googleapis.com/css?family=Roboto'', innerHTML = []\<rparr>]"
    and "rootStyle (applyFont (Some ''My-Font'') ?a) = [(customFontFamily,
          dq @ ''My-Font'' @ dq @ '', '' @ sq @ ''Noto Color Emoji'' @ sq @ '', sans-serif'')]"
    unfolding a
    by (simp_all add: applyFont_def ensure_link_def apply_override_def Let_def s h r f l
        isGoogleFont_def defaultSettings_def getElementById_def has_id_def node_elem_def
        setProperty_def overrideStyleId_def)
  then show ?thesis
    using g l by (simp add: getPropertyValue_def s defaultSettings_def)
qed

subsection \<open>The cached style element keeps its id\<close>

text \<open>
  The hypothesis of the theorem on \<^verbatim>\<open>removeFont\<close> and the override style holds when the
  extension starts and is kept by every operation.
\<close>

lemma cached_ok_cong:
  "map_option el_id (fontStyleElement s') = map_option el_id (fontStyleElement s) \<Longrightarrow>
   cached_ok s' = cached_ok s"
  by (cases "fontStyleElement s"; cases "fontStyleElement s'") (auto simp: cached_ok_def)



lemma cached_ok_injectLocalFontStyles: "cached_ok s \<Longrightarrow> cached_ok (injectLocalFontStyles s)"
  by (cases "fontStyleElement s")
     (simp_all add: cached_ok_def fontStyleElement_injectLocalFontStyles createElement_def)



lemma ids_ensure_link:
  "map_option el_id (fontStyleElement (ensure_link fontName s)) =
     map_option el_id (fontStyleElement s)"
  by (simp add: ensure_link_def Let_def appendChild_def split: option.splits)



lemma ids_set_innerHTML:
  "map_option el_id (fontStyleElement (set_innerHTML k c s)) =
     map_option el_id (fontStyleElement s)"
  by (cases "fontStyleElement s") (simp_all add: set_innerHTML_def split: node.splits)



lemma ids_apply_override:
  "map_option el_id (fontStyleElement (apply_override fontName s)) =
     map_option el_id (fontStyleElement s)"
proof (cases "getElementById s overrideStyleId")
  case None
  then show ?thesis
    by (simp add: apply_override_def Let_def ids_set_innerHTML) (simp add: appendChild_def)
next
  case (Some k)
  then show ?thesis
    by (simp add: apply_override_def Let_def ids_set_innerHTML)
qed


lemma cached_ok_frame2 [simp]:
  "cached_ok (set_activeFont a s) = cached_ok s"
  "cached_ok (removeProperty p s) = cached_ok s"
  "cached_ok (setProperty p v s) = cached_ok s"
  "cached_ok (remove_child k s) = cached_ok s"
  "cached_ok (saveSettingsDebounced s) = cached_ok s"
  "cached_ok (notify m t s) = cached_ok s"
  "cached_ok (renderFontList s) = cached_ok s"
  "cached_ok (s\<lparr>google_font_name := x\<rparr>) = cached_ok s"
  "cached_ok (s\<lparr>google_font_link := x\<rparr>) = cached_ok s"
  "cached_ok (s\<lparr>local_font_name := x\<rparr>) = cached_ok s"
  "cached_ok (s\<lparr>local_font_file := y\<rparr>) = cached_ok s"
  "cached_ok (s\<lparr>local_font_filename := z\<rparr>) = cached_ok s"
  by (simp_all add: cached_ok_def host_defs set_activeFont_def removeProperty_def
      setProperty_def remove_child_def)



lemma cached_ok_applyFont: "cached_ok s \<Longrightarrow> cached_ok (applyFont arg s)"
proof (cases arg)
  case None
  then show "cached_ok s \<Longrightarrow> cached_ok (applyFont arg s)" by (simp add: applyFont_def)
next
  case (Some fn)
  have f: "fontStyleElement (setProperty p v t) = fontStyleElement t" for p v t
    by (simp add: setProperty_def)
  have "cached_ok (apply_override fn (setProperty p v (ensure_link fn s))) = cached_ok s" for p v
    by (rule cached_ok_cong) (simp add: ids_apply_override f ids_ensure_link)
  then show "cached_ok s \<Longrightarrow> cached_ok (applyFont arg s)"
    using Some by (simp add: applyFont_def)
qed

lemma cached_ok_removeFont: "cached_ok s \<Longrightarrow> cached_ok (removeFont fontName s)"
  by (simp add: removeFont_def Let_def cached_ok_injectLocalFontStyles split: option.splits)



lemma cached_ok_addGoogleFont: "cached_ok s \<Longrightarrow> cached_ok (addGoogleFont s)"
  by (simp add: addGoogleFont_def Let_def)



lemma cached_ok_handleLocalFontFile: "cached_ok (handleLocalFontFile s) = cached_ok s"
  by (simp add: handleLocalFontFile_def Let_def readAsDataURL_def cached_ok_def notify_def
      split: option.splits)

lemma cached_ok_reader_fire: "cached_ok s \<Longrightarrow> cached_ok (reader_fire k s)"
proof (cases "k < length (reads s)")
  case True
  assume ok: "cached_ok s"
  obtain nm fl where r: "reads s ! k = (nm, fl)" by (cases "reads s ! k")
  have ok1: "cached_ok (s\<lparr>reads := take k (reads s) @ drop (Suc k) (reads s)\<rparr>)"
    using ok by (simp add: cached_ok_def)
  show ?thesis
    using True r ok1
    by (cases fl)
       (simp_all add: reader_fire_def reader_onload_def reader_onerror_def Let_def
          cached_ok_injectLocalFontStyles)
next
  case False
  then show "cached_ok s \<Longrightarrow> cached_ok (reader_fire k s)" by (simp add: reader_fire_def)
qed



lemma cached_ok_init_state: "cached_ok init_state"
  by (simp add: cached_ok_def init_state_def)

subsection \<open>The text of the rules read back\<close>








subsection \<open>The block in the document\<close>



lemma block_ok_injectLocalFontStyles: "block_ok s \<Longrightarrow> block_ok (injectLocalFontStyles s)"
  by (cases "fontStyleElement s")
     (simp_all add: block_ok_def cached_ok_injectLocalFontStyles head_injectLocalFontStyles
        fontStyleElement_injectLocalFontStyles)

lemma block_ok_frame [simp]:
  "block_ok (set_local l s) = block_ok s"
  "block_ok (set_google g s) = block_ok s"
  "block_ok (set_activeFont a s) = block_ok s"
  "block_ok (removeProperty p s) = block_ok s"
  "block_ok (setProperty p v s) = block_ok s"
  "block_ok (saveSettingsDebounced s) = block_ok s"
  "block_ok (notify m t s) = block_ok s"
  "block_ok (renderFontList s) = block_ok s"
  by (auto simp: block_ok_def cached_ok_def host_defs assign_defs removeProperty_def
      setProperty_def)

lemma count_list_remove_nth:
  assumes "k < length xs" and "xs ! k \<noteq> y"
  shows "count_list (take k xs @ drop (Suc k) xs) y = count_list xs y"
proof -
  have "count_list xs y = count_list (take k xs @ xs ! k # drop (Suc k) xs) y"
    using assms(1) by (simp add: id_take_nth_drop[symmetric])
  then show ?thesis using assms(2) by simp
qed

lemma list_all_remove_nth: "list_all P xs \<Longrightarrow> list_all P (take k xs @ drop (Suc k) xs)"
  by (auto simp: list_all_iff dest: in_set_takeD in_set_dropD)

lemma block_ok_remove_override:
  assumes ok: "block_ok s" and g: "getElementById s overrideStyleId = Some k"
  shows "block_ok (remove_child k s)"
proof -
  have k: "k < length (head s)" and h: "has_id s overrideStyleId (head s ! k)"
    using getElementById_Some[OF g] by simp_all
  have "head s ! k \<noteq> CachedFontStyle"
  proof
    assume c: "head s ! k = CachedFontStyle"
    then obtain e where "fontStyleElement s = Some e" "el_id e = overrideStyleId"
      using h by (auto simp: has_id_def node_elem_def split: option.splits)
    then show False using ok by (simp add: block_ok_def cached_ok_def)
  qed
  then have c: "count_list (head (remove_child k s)) CachedFontStyle =
                  count_list (head s) CachedFontStyle"
    using k by (simp add: remove_child_def count_list_remove_nth del: count_list_append)
  have fs: "fontStyleElement (remove_child k s) = fontStyleElement s"
    by (simp add: remove_child_def)
  have la: "list_all (\<lambda>n. case n of Elem e \<Rightarrow> el_id e \<noteq> localDefsId | CachedFontStyle \<Rightarrow> True)
              (head (remove_child k s))"
    using ok by (simp add: remove_child_def block_ok_def list_all_remove_nth del: list_all_append)
  show ?thesis
    using ok la unfolding block_ok_def cached_ok_def c fs by simp
qed












subsection \<open>The block stays in order\<close>

text \<open>
  The first hypothesis of the theorem on the style block holds when the extension starts
  and is kept by every event of the page.
\<close>

lemma block_ok_init_state: "block_ok init_state"
  by (simp add: block_ok_def cached_ok_def init_state_def)

lemma block_ok_appendChild:
  assumes "block_ok s" and "el_id e \<noteq> localDefsId"
  shows "block_ok (appendChild (Elem e) s)"
  using assms by (auto simp: block_ok_def cached_ok_def appendChild_def)

lemma count_list_update_other:
  assumes "k < length xs" and "xs ! k \<noteq> y" and "z \<noteq> y"
  shows "count_list (xs[k := z]) y = count_list xs y"
proof -
  have "count_list xs y = count_list (take k xs @ xs ! k # drop (Suc k) xs) y"
    using assms(1) by (simp add: id_take_nth_drop[symmetric])
  moreover have "xs[k := z] = take k xs @ z # drop (Suc k) xs"
    using assms(1) by (simp add: upd_conv_take_nth_drop)
  ultimately show ?thesis using assms(2,3) by simp
qed

lemma list_all_update: "list_all P xs \<Longrightarrow> P z \<Longrightarrow> list_all P (xs[k := z])"
  by (auto simp: list_all_iff dest: set_update_subset_insert[THEN subsetD])

lemma block_ok_set_innerHTML:
  assumes ok: "block_ok s"
  shows "block_ok (set_innerHTML k c s)"
proof (cases "k < length (head s)")
  case False
  then show ?thesis using ok by (simp add: set_innerHTML_def)
next
  case True
  show ?thesis
  proof (cases "head s ! k")
    case (Elem e)
    have m: "Elem e \<in> set (head s)" using True Elem by (metis nth_mem)
    have i: "el_id e \<noteq> localDefsId"
      using ok m by (auto simp: block_ok_def list_all_iff)
    have s': "set_innerHTML k c s = s\<lparr>head := (head s)[k := Elem (e\<lparr>innerHTML := c\<rparr>)]\<rparr>"
      using True Elem by (simp add: set_innerHTML_def)
    have c: "count_list ((head s)[k := Elem (e\<lparr>innerHTML := c\<rparr>)]) CachedFontStyle =
             count_list (head s) CachedFontStyle"
      using True Elem by (intro count_list_update_other) simp_all
    have la: "list_all (\<lambda>n. case n of Elem e \<Rightarrow> el_id e \<noteq> localDefsId | CachedFontStyle \<Rightarrow> True)
                ((head s)[k := Elem (e\<lparr>innerHTML := c\<rparr>)])"
      using ok i by (intro list_all_update) (simp_all add: block_ok_def)
    show ?thesis
      using ok la unfolding s' block_ok_def cached_ok_def by (simp add: c)
  next
    case CachedFontStyle
    then have "set_innerHTML k c s =
        s\<lparr>fontStyleElement := map_option (\<lambda>e. e\<lparr>innerHTML := c\<rparr>) (fontStyleElement s)\<rparr>"
      using True by (simp add: set_innerHTML_def)
    then show ?thesis
      using ok by (cases "fontStyleElement s") (simp_all add: block_ok_def cached_ok_def)
  qed
qed

lemma link_id_not_localDefs: "link_id nm \<noteq> localDefsId"
  by (simp add: link_id_def localDefsId_def)

lemma block_ok_ensure_link: "block_ok s \<Longrightarrow> block_ok (ensure_link fontName s)"
  by (simp add: ensure_link_def Let_def block_ok_appendChild createElement_def
      link_id_not_localDefs split: option.splits)

lemma block_ok_apply_override:
  assumes ok: "block_ok s"
  shows "block_ok (apply_override fontName s)"
proof (cases "getElementById s overrideStyleId")
  case None
  have "block_ok (appendChild (Elem ((createElement ''style'')\<lparr>el_id := overrideStyleId\<rparr>)) s)"
    using ok by (intro block_ok_appendChild) (simp_all add: createElement_def)
  then show ?thesis
    using None ok by (simp add: apply_override_def Let_def block_ok_set_innerHTML)
next
  case (Some k)
  then show ?thesis
    using ok
    by (simp add: apply_override_def Let_def block_ok_set_innerHTML block_ok_remove_override)
qed

lemma block_ok_applyFont: "block_ok s \<Longrightarrow> block_ok (applyFont arg s)"
  by (cases arg)
     (simp_all add: applyFont_def block_ok_apply_override block_ok_ensure_link)

lemma block_ok_addGoogleFont: "block_ok s \<Longrightarrow> block_ok (addGoogleFont s)"
proof -
  have u: "block_ok (t\<lparr>google_font_name := a, google_font_link := b\<rparr>) = block_ok t" for t a b
    by (simp add: block_ok_def cached_ok_def)
  show "block_ok s \<Longrightarrow> block_ok (addGoogleFont s)"
    by (simp add: addGoogleFont_def Let_def u)
qed

lemma block_ok_handleLocalFontFile: "block_ok (handleLocalFontFile s) = block_ok s"
proof -
  have u: "block_ok (t\<lparr>local_font_filename := b\<rparr>) = block_ok t"
          "block_ok (t\<lparr>reads := r\<rparr>) = block_ok t" for t b r
    by (auto simp: block_ok_def cached_ok_def)
  show ?thesis
    by (simp add: handleLocalFontFile_def Let_def readAsDataURL_def u split: option.splits)
qed

lemma block_ok_reader_fire: "block_ok s \<Longrightarrow> block_ok (reader_fire k s)"
proof (cases "k < length (reads s)")
  case True
  assume ok: "block_ok s"
  obtain nm fl where r: "reads s ! k = (nm, fl)" by (cases "reads s ! k")
  have ok1: "block_ok (s\<lparr>reads := take k (reads s) @ drop (Suc k) (reads s)\<rparr>)"
    using ok by (simp add: block_ok_def cached_ok_def)
  have u: "block_ok (t\<lparr>local_font_name := a, local_font_filename := b, local_font_file := c\<rparr>) =
           block_ok t" for t a b c
    by (simp add: block_ok_def cached_ok_def)
  have v: "block_ok (t\<lparr>local_font_filename := b\<rparr>) = block_ok t" for t b
    by (simp add: block_ok_def cached_ok_def)
  show ?thesis
    using True r ok1
    by (cases fl)
       (simp_all add: reader_fire_def reader_onload_def reader_onerror_def Let_def u v
          block_ok_injectLocalFontStyles)
next
  case False
  then show "block_ok s \<Longrightarrow> block_ok (reader_fire k s)" by (simp add: reader_fire_def)
qed

end
